theory Spec2Isabelle
  imports
    Main
    "HOL-Library.Word"
    "HOL-Library.Char_ord"
    "HOL-Library.List_Lexorder"
    "HOL-Library.Product_Lexorder"
    "HOL-Library.Multiset"
begin

unbundle bit_operations_syntax

section \<open>Python values\<close>

text \<open>
  The values that \<^verbatim>\<open>helper.data_format.data_standardization\<close> and
  \<^verbatim>\<open>helper.data_id.convert_data_to_id\<close> receive.  A \<open>string\<close> is a Python \<^verbatim>\<open>str\<close> whose
  characters are the code points U+0000 .. U+00FF (one \<open>char\<close> per code point); \<^verbatim>\<open>bytes\<close>
  are lists of 8-bit words.  A \<^verbatim>\<open>float\<close> is identified with the text \<^verbatim>\<open>float.__repr__\<close>
  prints for it (\<^verbatim>\<open>1.5\<close>, \<^verbatim>\<open>1e+16\<close>, \<^verbatim>\<open>nan\<close>, \<^verbatim>\<open>-inf\<close>): the program reads a float
  only through \<^verbatim>\<open>str\<close>, \<^verbatim>\<open>repr\<close> and \<^verbatim>\<open>json.dumps\<close>, and all three print that text.
  A \<^verbatim>\<open>dict\<close> is the list of its items in insertion order; its keys are strings.
  \<open>PObject\<close> stands for an instance of any other class, given by the name of the class and
  by what \<^verbatim>\<open>str\<close> and \<^verbatim>\<open>repr\<close> return for it (\<^verbatim>\<open>Decimal('1')\<close> is
  \<open>PObject ''Decimal'' ''1'' ''Decimal('1')''\<close>).
\<close>

type_synonym byte = "8 word"

datatype datetime = Datetime (year: nat) (month: nat) (day: nat)
  (hour: nat) (minute: nat) (second: nat) (microsecond: nat)

datatype pyval =
    PNone
  | PBool bool
  | PInt int
  | PFloat string
  | PStr string
  | PBytes "byte list"
  | PDatetime datetime
  | PList "pyval list"
  | PTuple "pyval list"
  | PDict "(string \<times> pyval) list"
  | PObject string string string

subsection \<open>The built-ins \<^verbatim>\<open>type(x).__name__\<close>, \<^verbatim>\<open>repr\<close> and \<^verbatim>\<open>str\<close>\<close>

fun type_name :: "pyval \<Rightarrow> string" where
  "type_name PNone = ''NoneType''"
| "type_name (PBool b) = ''bool''"
| "type_name (PInt i) = ''int''"
| "type_name (PFloat r) = ''float''"
| "type_name (PStr s) = ''str''"
| "type_name (PBytes b) = ''bytes''"
| "type_name (PDatetime d) = ''datetime''"
| "type_name (PList xs) = ''list''"
| "type_name (PTuple xs) = ''tuple''"
| "type_name (PDict kvs) = ''dict''"
| "type_name (PObject cls s r) = cls"

definition digit_char :: "nat \<Rightarrow> char" where
  "digit_char d = char_of (48 + d)"

fun show_nat :: "nat \<Rightarrow> string" where
  "show_nat n = (if n < 10 then [digit_char n] else show_nat (n div 10) @ [digit_char (n mod 10)])"

declare show_nat.simps [simp del]

definition show_int :: "int \<Rightarrow> string" where
  "show_int i = (if i < 0 then CHR ''-'' # show_nat (nat (- i)) else show_nat (nat i))"

definition hex_char :: "nat \<Rightarrow> char" where
  "hex_char d = (if d < 10 then char_of (48 + d) else char_of (87 + d))"

definition hex2 :: "nat \<Rightarrow> string" where
  "hex2 n = [hex_char (n div 16 mod 16), hex_char (n mod 16)]"

text \<open>Zero-padded decimal of a fixed width, as \<^verbatim>\<open>%02d\<close>, \<^verbatim>\<open>%04d\<close> and \<^verbatim>\<open>%06d\<close> print it.\<close>

definition zpad :: "nat \<Rightarrow> nat \<Rightarrow> string" where
  "zpad w n = replicate (w - length (show_nat n)) CHR ''0'' @ show_nat n"

abbreviation (input) squote :: char where "squote \<equiv> CHR 0x27"
abbreviation (input) dquote :: char where "dquote \<equiv> CHR 0x22"
abbreviation (input) backslash :: char where "backslash \<equiv> CHR 0x5C"

text \<open>
  \<^verbatim>\<open>str.__repr__\<close>: single quotes unless the text has a single quote and no double quote;
  the quote and the backslash are escaped, tab, newline and carriage return are written
  \<^verbatim>\<open>\t \n \r\<close>, every other non-printable code point below U+0100 as \<^verbatim>\<open>\xNN\<close>.
  Below U+0100 the non-printable code points are the controls U+0000..U+001F and
  U+007F..U+009F, the no-break space U+00A0 and the soft hyphen U+00AD.
\<close>

definition repr_quote :: "'a list \<Rightarrow> 'a \<Rightarrow> 'a \<Rightarrow> char" where
  "repr_quote s sq dq = (if sq \<in> set s \<and> dq \<notin> set s then dquote else squote)"

definition printable :: "char \<Rightarrow> bool" where
  "printable c = (let n = (of_char c :: nat) in
     (32 \<le> n \<and> n < 127) \<or> (161 \<le> n \<and> n \<noteq> 173))"

definition repr_char :: "char \<Rightarrow> char \<Rightarrow> string" where
  "repr_char q c =
     (if c = q \<or> c = backslash then [backslash, c]
      else if c = CHR 0x09 then [backslash, CHR ''t'']
      else if c = CHR 0x0A then [backslash, CHR ''n'']
      else if c = CHR 0x0D then [backslash, CHR ''r'']
      else if \<not> printable c then [backslash, CHR ''x''] @ hex2 (of_char c)
      else [c])"

definition str_repr :: "string \<Rightarrow> string" where
  "str_repr s = (let q = repr_quote s squote dquote in q # concat (map (repr_char q) s) @ [q])"

text \<open>\<^verbatim>\<open>bytes.__repr__\<close>: the same quoting; every byte outside 0x20..0x7E is escaped.\<close>

definition repr_byte :: "char \<Rightarrow> byte \<Rightarrow> string" where
  "repr_byte q b =
     (let c = char_of (unat b) in
      if c = q \<or> c = backslash then [backslash, c]
      else if c = CHR 0x09 then [backslash, CHR ''t'']
      else if c = CHR 0x0A then [backslash, CHR ''n'']
      else if c = CHR 0x0D then [backslash, CHR ''r'']
      else if unat b < 32 \<or> 127 \<le> unat b then [backslash, CHR ''x''] @ hex2 (unat b)
      else [c])"

definition bytes_repr :: "byte list \<Rightarrow> string" where
  "bytes_repr b = (let q = repr_quote b 0x27 0x22 in
     CHR ''b'' # q # concat (map (repr_byte q) b) @ [q])"

text \<open>\<^verbatim>\<open>datetime.__repr__\<close> and \<^verbatim>\<open>datetime.__str__\<close> (\<^verbatim>\<open>isoformat(sep=' ')\<close>) of a naive datetime.\<close>

definition datetime_repr :: "datetime \<Rightarrow> string" where
  "datetime_repr d =
     ''datetime.datetime('' @ show_nat (year d) @ '', '' @ show_nat (month d) @ '', ''
       @ show_nat (day d) @ '', '' @ show_nat (hour d) @ '', '' @ show_nat (minute d)
       @ (if microsecond d \<noteq> 0 then '', '' @ show_nat (second d) @ '', '' @ show_nat (microsecond d)
          else if second d \<noteq> 0 then '', '' @ show_nat (second d) else [])
       @ '')''"

definition datetime_str :: "datetime \<Rightarrow> string" where
  "datetime_str d =
     zpad 4 (year d) @ ''-'' @ zpad 2 (month d) @ ''-'' @ zpad 2 (day d) @ '' ''
       @ zpad 2 (hour d) @ '':'' @ zpad 2 (minute d) @ '':'' @ zpad 2 (second d)
       @ (if microsecond d \<noteq> 0 then ''.'' @ zpad 6 (microsecond d) else [])"

fun join :: "string \<Rightarrow> string list \<Rightarrow> string" where
  "join sep [] = []"
| "join sep [x] = x"
| "join sep (x # y # ys) = x @ sep @ join sep (y # ys)"

fun py_repr :: "pyval \<Rightarrow> string" where
  "py_repr PNone = ''None''"
| "py_repr (PBool b) = (if b then ''True'' else ''False'')"
| "py_repr (PInt i) = show_int i"
| "py_repr (PFloat r) = r"
| "py_repr (PStr s) = str_repr s"
| "py_repr (PBytes b) = bytes_repr b"
| "py_repr (PDatetime d) = datetime_repr d"
| "py_repr (PList xs) = ''['' @ join '', '' (map py_repr xs) @ '']''"
| "py_repr (PTuple xs) =
     ''('' @ join '', '' (map py_repr xs) @ (if length xs = 1 then '','' else []) @ '')''"
| "py_repr (PDict kvs) =
     ''{'' @ join '', '' (map (\<lambda>kv. str_repr (fst kv) @ '': '' @ py_repr (snd kv)) kvs) @ ''}''"
| "py_repr (PObject cls s r) = r"

fun py_str :: "pyval \<Rightarrow> string" where
  "py_str (PStr s) = s"
| "py_str (PDatetime d) = datetime_str d"
| "py_str (PObject cls s r) = s"
| "py_str v = py_repr v"

section \<open>The canonical normalizer: \<^verbatim>\<open>helper/data_format.py\<close>\<close>

subsection \<open>\<^verbatim>\<open>compare_items\<close>\<close>

text \<open>
  \<^verbatim>\<open>type_order\<close> is a \<^verbatim>\<open>defaultdict(lambda: 0)\<close> with eight entries: a key that is not in
  the table reads as 0.
\<close>

definition type_order_entries :: "(string \<times> int) list" where
  "type_order_entries =
     [(''int'', 1), (''str'', 2), (''float'', 3), (''datetime'', 4),
      (''NoneType'', 5), (''bool'', 6), (''list'', 7), (''dict'', 8)]"

definition type_order :: "string \<Rightarrow> int" where
  "type_order t = (case map_of type_order_entries t of None \<Rightarrow> 0 | Some r \<Rightarrow> r)"

definition compare_items :: "pyval \<Rightarrow> pyval \<Rightarrow> int" where
  "compare_items item1 item2 =
     (let item1_key = py_str item1;
          item1_type = type_name item1;
          item2_key = py_str item2;
          item2_type = type_name item2
      in if item1_key \<noteq> item2_key then (if item1_key > item2_key then 1 else - 1)
         else if item1_type \<noteq> item2_type then
           (if type_order item1_type > type_order item2_type then 1 else - 1)
         else 0)"

subsection \<open>\<^verbatim>\<open>sorted\<close> with \<^verbatim>\<open>functools.cmp_to_key\<close>\<close>

text \<open>
  \<^verbatim>\<open>sorted\<close> is stable and calls only \<^verbatim>\<open><\<close> on the keys; on a key made by
  \<^verbatim>\<open>cmp_to_key(mycmp)\<close> that is \<^verbatim>\<open>mycmp(a, b) < 0\<close>.  It is modelled as the stable
  insertion sort: an element goes behind the elements before it in the input that are not
  greater, and before the first element that is greater or that it does not exceed.
\<close>

definition cmp_to_key :: "('a \<Rightarrow> 'a \<Rightarrow> int) \<Rightarrow> 'a \<Rightarrow> 'a \<Rightarrow> bool" where
  "cmp_to_key mycmp a b = (mycmp a b < 0)"

fun insort_lt :: "('a \<Rightarrow> 'a \<Rightarrow> bool) \<Rightarrow> 'a \<Rightarrow> 'a list \<Rightarrow> 'a list" where
  "insort_lt lt x [] = [x]"
| "insort_lt lt x (y # ys) = (if lt y x then y # insort_lt lt x ys else x # y # ys)"

definition py_sorted :: "('a \<Rightarrow> 'a \<Rightarrow> bool) \<Rightarrow> 'a list \<Rightarrow> 'a list" where
  "py_sorted lt xs = foldr (insort_lt lt) xs []"

lemma set_insort_lt: "set (insort_lt lt x ys) = insert x (set ys)"
  by (induction ys) auto

lemma set_py_sorted: "set (py_sorted lt xs) = set xs"
  by (induction xs) (simp_all add: py_sorted_def set_insort_lt)

subsection \<open>\<^verbatim>\<open>sort_dict\<close> and \<^verbatim>\<open>sort_list\<close>\<close>

text \<open>
  Both work on the deep copy that \<^verbatim>\<open>convert_data_to_id\<close> hands over, so here they are
  functions from the value before the call to the value after it: \<open>sort_dict d\<close> is the
  dict \<open>d\<close> after \<^verbatim>\<open>sort_dict(d)\<close> has updated it in place, \<open>sort_list d\<close> is the tuple
  that \<^verbatim>\<open>sort_list(d)\<close> returns.  \<^verbatim>\<open>sort_list\<close> sorts first, on the elements as they are
  passed in, and only then walks over the sorted list to normalize the containers in it.
\<close>

function sort_dict :: "(string \<times> pyval) list \<Rightarrow> (string \<times> pyval) list"
  and sort_list :: "pyval list \<Rightarrow> pyval"
where
  "sort_dict d =
     map (\<lambda>kv. (fst kv,
            (case snd kv of
               PList xs \<Rightarrow> sort_list xs
             | PTuple xs \<Rightarrow> sort_list xs
             | PDict d' \<Rightarrow> PDict (sort_dict d')
             | v \<Rightarrow> v))) d"
| "sort_list d =
     PTuple (map (\<lambda>x. (case x of
               PList xs \<Rightarrow> sort_list xs
             | PTuple xs \<Rightarrow> sort_list xs
             | PDict d' \<Rightarrow> PDict (sort_dict d')
             | v \<Rightarrow> v))
        (py_sorted (cmp_to_key compare_items) d))"
  by pat_completeness auto

lemma size_snd_mem:
  "kv \<in> set d \<Longrightarrow> size (snd kv) < Suc (size_list (size_prod (\<lambda>_. 0) size) d)"
  by (induction d) auto

termination sort_dict
  apply (relation "measure (\<lambda>x. case x of
      Inl d \<Rightarrow> size_list (size_prod (\<lambda>_. 0) size) d
    | Inr xs \<Rightarrow> size_list size xs)")
        apply simp
  subgoal for d kv xs using size_snd_mem [of kv d] by simp
  subgoal for d kv xs using size_snd_mem [of kv d] by simp
  subgoal for d kv xs using size_snd_mem [of kv d] by simp
  subgoal for d x xs using size_list_estimation [of x d "size_list size xs" size]
    by (simp add: set_py_sorted)
  subgoal for d x xs using size_list_estimation [of x d "size_list size xs" size]
    by (simp add: set_py_sorted)
  subgoal for d x xs
    using size_list_estimation [of x d "size_list (size_prod (\<lambda>_. 0) size) xs" size]
    by (simp add: set_py_sorted)
  done

declare sort_dict.simps [simp del] sort_list.simps [simp del]

subsection \<open>\<^verbatim>\<open>json.dumps(data, sort_keys=True, default=str, ensure_ascii=True)\<close>\<close>

text \<open>
  A string is written between double quotes; the double quote, the backslash and the
  controls that have a short escape get it, every other character outside U+0020..U+007E
  is written \<^verbatim>\<open>\u00XX\<close>.  Lists and tuples are arrays, separated by a comma and a space;
  a dict is an object whose items are sorted by key.  What JSON has no form for
  (\<^verbatim>\<open>datetime\<close>, \<^verbatim>\<open>bytes\<close>, other objects) goes through \<^verbatim>\<open>default=str\<close> and is
  written as the string \<^verbatim>\<open>str\<close> returns.
\<close>

definition hex4 :: "nat \<Rightarrow> string" where
  "hex4 n = [hex_char (n div 4096 mod 16), hex_char (n div 256 mod 16),
             hex_char (n div 16 mod 16), hex_char (n mod 16)]"

definition json_char :: "char \<Rightarrow> string" where
  "json_char c =
     (if c = dquote then [backslash, dquote]
      else if c = backslash then [backslash, backslash]
      else if c = CHR 0x0A then [backslash, CHR ''n'']
      else if c = CHR 0x0D then [backslash, CHR ''r'']
      else if c = CHR 0x09 then [backslash, CHR ''t'']
      else if c = CHR 0x08 then [backslash, CHR ''b'']
      else if c = CHR 0x0C then [backslash, CHR ''f'']
      else if (of_char c :: nat) < 32 \<or> 126 < (of_char c :: nat)
        then [backslash, CHR ''u''] @ hex4 (of_char c)
      else [c])"

definition json_string :: "string \<Rightarrow> string" where
  "json_string s = dquote # concat (map json_char s) @ [dquote]"

definition json_float :: "string \<Rightarrow> string" where
  "json_float r =
     (if r = ''nan'' then ''NaN'' else if r = ''inf'' then ''Infinity''
      else if r = ''-inf'' then ''-Infinity'' else r)"

function json_dumps :: "pyval \<Rightarrow> string" where
  "json_dumps PNone = ''null''"
| "json_dumps (PBool b) = (if b then ''true'' else ''false'')"
| "json_dumps (PInt i) = show_int i"
| "json_dumps (PFloat r) = json_float r"
| "json_dumps (PStr s) = json_string s"
| "json_dumps (PList xs) = ''['' @ join '', '' (map json_dumps xs) @ '']''"
| "json_dumps (PTuple xs) = ''['' @ join '', '' (map json_dumps xs) @ '']''"
| "json_dumps (PDict kvs) =
     ''{'' @ join '', '' (map (\<lambda>kv. json_string (fst kv) @ '': '' @ json_dumps (snd kv))
                          (py_sorted (\<lambda>a b. fst a < fst b) kvs)) @ ''}''"
| "json_dumps (PBytes b) = json_string (py_str (PBytes b))"
| "json_dumps (PDatetime d) = json_string (py_str (PDatetime d))"
| "json_dumps (PObject cls s r) = json_string (py_str (PObject cls s r))"
  by pat_completeness auto
termination
  apply (relation "measure size")
     apply simp
  subgoal for xs x using size_list_estimation' [of x xs "size x" size] by simp
  subgoal for xs x using size_list_estimation' [of x xs "size x" size] by simp
  subgoal for kvs kv using size_snd_mem [of kv kvs] by (simp add: set_py_sorted)
  done

subsection \<open>\<^verbatim>\<open>data_standardization\<close>\<close>

definition data_standardization :: "pyval \<Rightarrow> pyval" where
  "data_standardization data =
     (case data of
        PList xs \<Rightarrow> PStr (json_dumps (sort_list xs))
      | PTuple xs \<Rightarrow> PStr (json_dumps (sort_list xs))
      | PDict d \<Rightarrow> PStr (json_dumps (PDict (sort_dict d)))
      | _ \<Rightarrow> data)"

section \<open>The identifier deriver: \<^verbatim>\<open>helper/data_id.py\<close>\<close>

subsection \<open>\<^verbatim>\<open>hashlib.sha256\<close>\<close>

text \<open>
  SHA-256 as FIPS 180-4 defines it.  A 32-bit word is an \<open>int\<close> in \<open>0 ..< 2 ^ 32\<close>;
  \<open>u32\<close> cuts a sum back to 32 bits.
\<close>

definition u32 :: "int \<Rightarrow> int" where
  "u32 x = x AND 0xFFFFFFFF"

definition rotr :: "nat \<Rightarrow> int \<Rightarrow> int" where
  "rotr n x = drop_bit n x OR u32 (push_bit (32 - n) x)"

definition rotl :: "nat \<Rightarrow> int \<Rightarrow> int" where
  "rotl n x = u32 (push_bit n x) OR drop_bit (32 - n) x"

definition not32 :: "int \<Rightarrow> int" where
  "not32 x = x XOR 0xFFFFFFFF"

definition sha256_k :: "int list" where
  "sha256_k =
     [0x428A2F98, 0x71374491, 0xB5C0FBCF, 0xE9B5DBA5, 0x3956C25B, 0x59F111F1,
      0x923F82A4, 0xAB1C5ED5, 0xD807AA98, 0x12835B01, 0x243185BE, 0x550C7DC3,
      0x72BE5D74, 0x80DEB1FE, 0x9BDC06A7, 0xC19BF174, 0xE49B69C1, 0xEFBE4786,
      0x0FC19DC6, 0x240CA1CC, 0x2DE92C6F, 0x4A7484AA, 0x5CB0A9DC, 0x76F988DA,
      0x983E5152, 0xA831C66D, 0xB00327C8, 0xBF597FC7, 0xC6E00BF3, 0xD5A79147,
      0x06CA6351, 0x14292967, 0x27B70A85, 0x2E1B2138, 0x4D2C6DFC, 0x53380D13,
      0x650A7354, 0x766A0ABB, 0x81C2C92E, 0x92722C85, 0xA2BFE8A1, 0xA81A664B,
      0xC24B8B70, 0xC76C51A3, 0xD192E819, 0xD6990624, 0xF40E3585, 0x106AA070,
      0x19A4C116, 0x1E376C08, 0x2748774C, 0x34B0BCB5, 0x391C0CB3, 0x4ED8AA4A,
      0x5B9CCA4F, 0x682E6FF3, 0x748F82EE, 0x78A5636F, 0x84C87814, 0x8CC70208,
      0x90BEFFFA, 0xA4506CEB, 0xBEF9A3F7, 0xC67178F2]"

definition sha256_init :: "int list" where
  "sha256_init =
     [0x6A09E667, 0xBB67AE85, 0x3C6EF372, 0xA54FF53A,
      0x510E527F, 0x9B05688C, 0x1F83D9AB, 0x5BE0CD19]"

text \<open>The 64-bit length field, most significant byte first, and least significant first.\<close>

definition be_bytes64 :: "int \<Rightarrow> int list" where
  "be_bytes64 n = map (\<lambda>i. drop_bit (8 * i) n AND 0xFF) (rev [0..<8])"

definition le_bytes64 :: "int \<Rightarrow> int list" where
  "le_bytes64 n = map (\<lambda>i. drop_bit (8 * i) n AND 0xFF) [0..<8]"

definition md_pad :: "(int \<Rightarrow> int list) \<Rightarrow> int list \<Rightarrow> int list" where
  "md_pad len_bytes m =
     m @ [0x80] @ replicate ((119 - length m mod 64) mod 64) 0 @ len_bytes (8 * int (length m))"

fun be_words :: "int list \<Rightarrow> int list" where
  "be_words (a # b # c # d # r) =
     (push_bit 24 a OR push_bit 16 b OR push_bit 8 c OR d) # be_words r"
| "be_words r = []"

fun le_words :: "int list \<Rightarrow> int list" where
  "le_words (a # b # c # d # r) =
     (push_bit 24 d OR push_bit 16 c OR push_bit 8 b OR a) # le_words r"
| "le_words r = []"

fun blocks :: "nat \<Rightarrow> int list \<Rightarrow> int list list" where
  "blocks 0 ws = []"
| "blocks (Suc n) ws = take 16 ws # blocks n (drop 16 ws)"

definition ssig0 :: "int \<Rightarrow> int" where
  "ssig0 x = rotr 7 x XOR rotr 18 x XOR drop_bit 3 x"

definition ssig1 :: "int \<Rightarrow> int" where
  "ssig1 x = rotr 17 x XOR rotr 19 x XOR drop_bit 10 x"

definition bsig0 :: "int \<Rightarrow> int" where
  "bsig0 x = rotr 2 x XOR rotr 13 x XOR rotr 22 x"

definition bsig1 :: "int \<Rightarrow> int" where
  "bsig1 x = rotr 6 x XOR rotr 11 x XOR rotr 25 x"

fun sha256_schedule :: "nat \<Rightarrow> int list \<Rightarrow> int list" where
  "sha256_schedule 0 w = w"
| "sha256_schedule (Suc n) w =
     sha256_schedule n
       (w @ [u32 (ssig1 (w ! (length w - 2)) + w ! (length w - 7)
                  + ssig0 (w ! (length w - 15)) + w ! (length w - 16))])"

fun sha256_round :: "int list \<Rightarrow> int \<times> int \<Rightarrow> int list" where
  "sha256_round [a, b, c, d, e, f, g, h] (k, w) =
     [u32 (u32 (h + bsig1 e + ((e AND f) XOR (not32 e AND g)) + k + w)
           + u32 (bsig0 a + ((a AND b) XOR (a AND c) XOR (b AND c)))),
      a, b, c,
      u32 (d + u32 (h + bsig1 e + ((e AND f) XOR (not32 e AND g)) + k + w)),
      e, f, g]"
| "sha256_round s kw = s"

definition sha256_block :: "int list \<Rightarrow> int list \<Rightarrow> int list" where
  "sha256_block hs ws =
     map u32 (map2 (+) hs (foldl sha256_round hs (zip sha256_k (sha256_schedule 48 ws))))"

definition sha256_words :: "int list \<Rightarrow> int list" where
  "sha256_words m =
     (let ws = be_words (md_pad be_bytes64 m)
      in foldl sha256_block sha256_init (blocks (length ws div 16) ws))"

definition hex_byte :: "int \<Rightarrow> string" where
  "hex_byte b = [hex_char (nat (drop_bit 4 b AND 0xF)), hex_char (nat (b AND 0xF))]"

definition be_bytes32 :: "int \<Rightarrow> int list" where
  "be_bytes32 w = map (\<lambda>i. drop_bit (8 * i) w AND 0xFF) [3, 2, 1, 0]"

definition le_bytes32 :: "int \<Rightarrow> int list" where
  "le_bytes32 w = map (\<lambda>i. drop_bit (8 * i) w AND 0xFF) [0, 1, 2, 3]"

definition sha256_hexdigest :: "byte list \<Rightarrow> string" where
  "sha256_hexdigest m = concat (map hex_byte (concat (map be_bytes32 (sha256_words (map uint m)))))"

subsection \<open>\<^verbatim>\<open>uuid.uuid3(uuid.NAMESPACE_X500, name)\<close>\<close>

text \<open>
  MD5 as RFC 1321 defines it, over the 16 bytes of the namespace followed by the UTF-8
  bytes of the name; the digest gets version 3 and the RFC 4122 variant, and is printed in
  the groups 8-4-4-4-12.
\<close>

definition md5_k :: "int list" where
  "md5_k =
     [0xD76AA478, 0xE8C7B756, 0x242070DB, 0xC1BDCEEE, 0xF57C0FAF, 0x4787C62A,
      0xA8304613, 0xFD469501, 0x698098D8, 0x8B44F7AF, 0xFFFF5BB1, 0x895CD7BE,
      0x6B901122, 0xFD987193, 0xA679438E, 0x49B40821, 0xF61E2562, 0xC040B340,
      0x265E5A51, 0xE9B6C7AA, 0xD62F105D, 0x02441453, 0xD8A1E681, 0xE7D3FBC8,
      0x21E1CDE6, 0xC33707D6, 0xF4D50D87, 0x455A14ED, 0xA9E3E905, 0xFCEFA3F8,
      0x676F02D9, 0x8D2A4C8A, 0xFFFA3942, 0x8771F681, 0x6D9D6122, 0xFDE5380C,
      0xA4BEEA44, 0x4BDECFA9, 0xF6BB4B60, 0xBEBFBC70, 0x289B7EC6, 0xEAA127FA,
      0xD4EF3085, 0x04881D05, 0xD9D4D039, 0xE6DB99E5, 0x1FA27CF8, 0xC4AC5665,
      0xF4292244, 0x432AFF97, 0xAB9423A7, 0xFC93A039, 0x655B59C3, 0x8F0CCC92,
      0xFFEFF47D, 0x85845DD1, 0x6FA87E4F, 0xFE2CE6E0, 0xA3014314, 0x4E0811A1,
      0xF7537E82, 0xBD3AF235, 0x2AD7D2BB, 0xEB86D391]"

definition md5_s :: "nat list" where
  "md5_s =
     [7, 12, 17, 22, 7, 12, 17, 22, 7, 12, 17, 22, 7, 12, 17, 22,
      5, 9, 14, 20, 5, 9, 14, 20, 5, 9, 14, 20, 5, 9, 14, 20,
      4, 11, 16, 23, 4, 11, 16, 23, 4, 11, 16, 23, 4, 11, 16, 23,
      6, 10, 15, 21, 6, 10, 15, 21, 6, 10, 15, 21, 6, 10, 15, 21]"

definition md5_init :: "int list" where
  "md5_init = [0x67452301, 0xEFCDAB89, 0x98BADCFE, 0x10325476]"

definition md5_f :: "nat \<Rightarrow> int \<Rightarrow> int \<Rightarrow> int \<Rightarrow> int" where
  "md5_f i b c d =
     (if i < 16 then (b AND c) OR (not32 b AND d)
      else if i < 32 then (d AND b) OR (not32 d AND c)
      else if i < 48 then b XOR c XOR d
      else c XOR (b OR not32 d))"

definition md5_g :: "nat \<Rightarrow> nat" where
  "md5_g i =
     (if i < 16 then i
      else if i < 32 then (5 * i + 1) mod 16
      else if i < 48 then (3 * i + 5) mod 16
      else (7 * i) mod 16)"

fun md5_step :: "int list \<Rightarrow> int list \<Rightarrow> nat \<Rightarrow> int list" where
  "md5_step m [a, b, c, d] i =
     [d, u32 (b + rotl (md5_s ! i) (u32 (md5_f i b c d + a + md5_k ! i + m ! md5_g i))), b, c]"
| "md5_step m s i = s"

definition md5_block :: "int list \<Rightarrow> int list \<Rightarrow> int list" where
  "md5_block hs m = map u32 (map2 (+) hs (foldl (md5_step m) hs [0..<64]))"

definition md5_digest :: "int list \<Rightarrow> int list" where
  "md5_digest m =
     (let ws = le_words (md_pad le_bytes64 m)
      in concat (map le_bytes32 (foldl md5_block md5_init (blocks (length ws div 16) ws))))"

definition namespace_x500 :: "int list" where
  "namespace_x500 =
     [0x6B, 0xA7, 0xB8, 0x14, 0x9D, 0xAD, 0x11, 0xD1,
      0x80, 0xB4, 0x00, 0xC0, 0x4F, 0xD4, 0x30, 0xC8]"

definition utf8_encode :: "string \<Rightarrow> byte list" where
  "utf8_encode s =
     concat (map (\<lambda>c. let n = (of_char c :: nat) in
        if n < 128 then [of_nat n] else [of_nat (192 + n div 64), of_nat (128 + n mod 64)]) s)"

definition uuid_str :: "int list \<Rightarrow> string" where
  "uuid_str b =
     (let h = map hex_byte b
      in concat (take 4 h) @ ''-'' @ concat (take 2 (drop 4 h)) @ ''-''
         @ concat (take 2 (drop 6 h)) @ ''-'' @ concat (take 2 (drop 8 h)) @ ''-''
         @ concat (drop 10 h))"

definition uuid3_x500 :: "string \<Rightarrow> string" where
  "uuid3_x500 name =
     (let h = md5_digest (namespace_x500 @ map uint (utf8_encode name));
          h' = h[6 := (h ! 6 AND 0x0F) OR 0x30, 8 := (h ! 8 AND 0x3F) OR 0x80]
      in uuid_str h')"

subsection \<open>\<^verbatim>\<open>convert_text_to_uuid\<close> and \<^verbatim>\<open>convert_data_to_id\<close>\<close>

definition convert_text_to_uuid :: "string \<Rightarrow> string" where
  "convert_text_to_uuid input_str = uuid3_x500 input_str"

text \<open>
  \<^verbatim>\<open>copy.deepcopy(data)\<close> is the identity on values.  The result is \<open>None\<close> where the
  Python function returns \<^verbatim>\<open>None\<close>: on the early \<^verbatim>\<open>return None\<close>, and where neither
  branch of the last \<^verbatim>\<open>if\<close>/\<^verbatim>\<open>elif\<close> is taken and the function falls off its end.
\<close>

definition convert_data_to_id :: "pyval \<Rightarrow> string \<Rightarrow> string option" where
  "convert_data_to_id data method =
     (let data_std = data_standardization data
      in case (case data_std of
                 PBytes b \<Rightarrow> Some b
               | PStr s \<Rightarrow> Some (utf8_encode s)
               | _ \<Rightarrow> None) of
           None \<Rightarrow> None
         | Some data_std_b \<Rightarrow>
             (let hash_string = sha256_hexdigest data_std_b
              in if method = ''uuid'' then Some (convert_text_to_uuid (''sha256='' @ hash_string))
                 else if method = ''sha256'' then Some hash_string
                 else None))"

fun is_str :: "pyval \<Rightarrow> bool" where
  "is_str (PStr s) = True"
| "is_str v = False"

fun is_bytes :: "pyval \<Rightarrow> bool" where
  "is_bytes (PBytes b) = True"
| "is_bytes v = False"

text \<open>The keys of \<^verbatim>\<open>type_order\<close>, in the order the source assigns them.\<close>

definition ranked_types :: "string list" where
  "ranked_types =
     [''int'', ''str'', ''float'', ''datetime'', ''NoneType'', ''bool'', ''list'', ''dict'']"

section \<open>Exceptions\<close>

text \<open>
  The functions above give the value of a call that raises nothing.  What can go wrong in
  \<^verbatim>\<open>data_standardization\<close> and \<^verbatim>\<open>convert_data_to_id\<close> on the values of this model is the
  printing of an integer: CPython refuses to convert an integer of more than
  \<^verbatim>\<open>sys.get_int_max_str_digits()\<close> decimal digits (4300 unless it is set otherwise) to text,
  and \<^verbatim>\<open>str\<close>, \<^verbatim>\<open>repr\<close> and \<^verbatim>\<open>json.dumps\<close> raise \<^verbatim>\<open>ValueError\<close> on it, also where it
  stands inside a container they print.  Neither \<^verbatim>\<open>helper/data_format.py\<close> nor
  \<^verbatim>\<open>helper/data_id.py\<close> catches an exception, so the functions are written once more with
  the exception as a result, \<open>Inl\<close>, which every caller passes on.  \<^verbatim>\<open>sorted\<close> calls the
  comparison only on a list of two elements or more, and then on each of them.

  Not in the model: \<^verbatim>\<open>str.encode('utf-8')\<close> raises \<^verbatim>\<open>UnicodeEncodeError\<close> on a lone
  surrogate (the strings here, code points below U+0100, have none); a structure nested
  deeper than the interpreter's recursion limit raises \<^verbatim>\<open>RecursionError\<close>; an object that
  cannot be copied or printed (\<open>PObject\<close> can) raises in \<^verbatim>\<open>copy.deepcopy\<close> or \<^verbatim>\<open>str\<close>.
\<close>

datatype error = TypeError | ValueError

definition int_max_str_digits :: nat where
  "int_max_str_digits = 4300"

definition int_too_long :: "int \<Rightarrow> bool" where
  "int_too_long i = (10 ^ int_max_str_digits \<le> \<bar>i\<bar>)"

fun has_long_int :: "pyval \<Rightarrow> bool" where
  "has_long_int (PInt i) = int_too_long i"
| "has_long_int (PList xs) = list_ex has_long_int xs"
| "has_long_int (PTuple xs) = list_ex has_long_int xs"
| "has_long_int (PDict kvs) = list_ex (\<lambda>kv. has_long_int (snd kv)) kvs"
| "has_long_int v = False"

definition py_str_exc :: "pyval \<Rightarrow> error + string" where
  "py_str_exc v = (if has_long_int v then Inl ValueError else Inr (py_str v))"

definition json_dumps_exc :: "pyval \<Rightarrow> error + string" where
  "json_dumps_exc v = (if has_long_int v then Inl ValueError else Inr (json_dumps v))"

definition compare_items_exc :: "pyval \<Rightarrow> pyval \<Rightarrow> error + int" where
  "compare_items_exc item1 item2 =
     (case py_str_exc item1 of
        Inl e \<Rightarrow> Inl e
      | Inr item1_key \<Rightarrow>
          (case py_str_exc item2 of
             Inl e \<Rightarrow> Inl e
           | Inr item2_key \<Rightarrow> Inr (compare_items item1 item2)))"

definition cmp_to_key_exc :: "('a \<Rightarrow> 'a \<Rightarrow> error + int) \<Rightarrow> 'a \<Rightarrow> 'a \<Rightarrow> error + bool" where
  "cmp_to_key_exc mycmp a b = map_sum id (\<lambda>r. r < 0) (mycmp a b)"

fun insort_exc :: "('a \<Rightarrow> 'a \<Rightarrow> error + bool) \<Rightarrow> 'a \<Rightarrow> 'a list \<Rightarrow> error + 'a list" where
  "insort_exc lt x [] = Inr [x]"
| "insort_exc lt x (y # ys) =
     (case lt y x of
        Inl e \<Rightarrow> Inl e
      | Inr b \<Rightarrow> if b then map_sum id (Cons y) (insort_exc lt x ys) else Inr (x # y # ys))"

fun py_sorted_exc :: "('a \<Rightarrow> 'a \<Rightarrow> error + bool) \<Rightarrow> 'a list \<Rightarrow> error + 'a list" where
  "py_sorted_exc lt [] = Inr []"
| "py_sorted_exc lt (x # xs) =
     (case py_sorted_exc lt xs of Inl e \<Rightarrow> Inl e | Inr ys \<Rightarrow> insort_exc lt x ys)"

fun try_map :: "('a \<Rightarrow> error + 'b) \<Rightarrow> 'a list \<Rightarrow> error + 'b list" where
  "try_map f [] = Inr []"
| "try_map f (x # xs) =
     (case f x of
        Inl e \<Rightarrow> Inl e
      | Inr y \<Rightarrow> map_sum id (Cons y) (try_map f xs))"

lemma try_map_cong [fundef_cong]:
  "xs = ys \<Longrightarrow> (\<And>x. x \<in> set ys \<Longrightarrow> f x = g x) \<Longrightarrow> try_map f xs = try_map g ys"
  by (induction ys arbitrary: xs) (auto split: sum.splits)

lemma map_sum_id_Inr [simp]:
  "(map_sum id f s = Inr z) = (\<exists>y. s = Inr y \<and> z = f y)"
  by (cases s) auto

lemma map_sum_id_Inl [simp]: "(map_sum id f s = Inl e) = (s = Inl e)"
  by (cases s) auto

lemma set_insort_exc: "insort_exc lt x ys = Inr zs \<Longrightarrow> set zs = insert x (set ys)"
  by (induction ys arbitrary: zs) (auto split: sum.splits if_splits)

lemma set_py_sorted_exc: "py_sorted_exc lt xs = Inr ys \<Longrightarrow> set ys = set xs"
  by (induction xs arbitrary: ys) (auto split: sum.splits dest: set_insort_exc)

function sort_dict_exc :: "(string \<times> pyval) list \<Rightarrow> error + (string \<times> pyval) list"
  and sort_list_exc :: "pyval list \<Rightarrow> error + pyval"
where
  "sort_dict_exc d =
     try_map (\<lambda>kv. map_sum id (Pair (fst kv))
        (case snd kv of
           PList xs \<Rightarrow> sort_list_exc xs
         | PTuple xs \<Rightarrow> sort_list_exc xs
         | PDict d' \<Rightarrow> map_sum id PDict (sort_dict_exc d')
         | v \<Rightarrow> Inr v)) d"
| "sort_list_exc d =
     (case py_sorted_exc (cmp_to_key_exc compare_items_exc) d of
        Inl e \<Rightarrow> Inl e
      | Inr d' \<Rightarrow>
          map_sum id PTuple
            (try_map (\<lambda>x. case x of
                 PList xs \<Rightarrow> sort_list_exc xs
               | PTuple xs \<Rightarrow> sort_list_exc xs
               | PDict d'' \<Rightarrow> map_sum id PDict (sort_dict_exc d'')
               | v \<Rightarrow> Inr v) d'))"
  by pat_completeness auto
termination
  apply (relation "measure (\<lambda>x. case x of
      Inl d \<Rightarrow> size_list (size_prod (\<lambda>_. 0) size) d
    | Inr xs \<Rightarrow> size_list size xs)")
        apply simp
  subgoal for d kv xs using size_snd_mem [of kv d] by simp
  subgoal for d kv xs using size_snd_mem [of kv d] by simp
  subgoal for d kv xs using size_snd_mem [of kv d] by simp
  subgoal for d d' x xs using size_list_estimation [of x d "size_list size xs" size]
    by (auto dest: set_py_sorted_exc)
  subgoal for d d' x xs using size_list_estimation [of x d "size_list size xs" size]
    by (auto dest: set_py_sorted_exc)
  subgoal for d d' x xs
    using size_list_estimation [of x d "size_list (size_prod (\<lambda>_. 0) size) xs" size]
    by (auto dest: set_py_sorted_exc)
  done

declare sort_dict_exc.simps [simp del] sort_list_exc.simps [simp del]

definition data_standardization_exc :: "pyval \<Rightarrow> error + pyval" where
  "data_standardization_exc data =
     (case data of
        PList xs \<Rightarrow>
          (case sort_list_exc xs of
             Inl e \<Rightarrow> Inl e
           | Inr t \<Rightarrow> map_sum id PStr (json_dumps_exc t))
      | PTuple xs \<Rightarrow>
          (case sort_list_exc xs of
             Inl e \<Rightarrow> Inl e
           | Inr t \<Rightarrow> map_sum id PStr (json_dumps_exc t))
      | PDict d \<Rightarrow>
          (case sort_dict_exc d of
             Inl e \<Rightarrow> Inl e
           | Inr d' \<Rightarrow> map_sum id PStr (json_dumps_exc (PDict d')))
      | _ \<Rightarrow> Inr data)"

definition convert_data_to_id_exc :: "pyval \<Rightarrow> string \<Rightarrow> error + string option" where
  "convert_data_to_id_exc data method =
     (case data_standardization_exc data of
        Inl e \<Rightarrow> Inl e
      | Inr data_std \<Rightarrow>
          Inr (case (case data_std of
                       PBytes b \<Rightarrow> Some b
                     | PStr s \<Rightarrow> Some (utf8_encode s)
                     | _ \<Rightarrow> None) of
                 None \<Rightarrow> None
               | Some data_std_b \<Rightarrow>
                   (let hash_string = sha256_hexdigest data_std_b
                    in if method = ''uuid''
                       then Some (convert_text_to_uuid (''sha256='' @ hash_string))
                       else if method = ''sha256'' then Some hash_string
                       else None)))"

fun is_container :: "pyval \<Rightarrow> bool" where
  "is_container (PList xs) = True"
| "is_container (PTuple xs) = True"
| "is_container (PDict d) = True"
| "is_container v = False"

section \<open>Entity grouping: \<^verbatim>\<open>find_edges_connections\<close> in \<^verbatim>\<open>helper/utils.py\<close>\<close>

subsection \<open>The iteration order of a CPython \<^verbatim>\<open>set\<close> of integers\<close>

text \<open>
  \<^verbatim>\<open>find_edges_connections\<close> numbers the remaining singletons in the order in which
  \<^verbatim>\<open>list(set(edges_s) - set(connections['value']))\<close> lists them, which is the order of the
  slots of CPython's hash table (\<^verbatim>\<open>Objects/setobject.c\<close>).  A table is the list of its
  slots; it starts with 8 of them.  The hash of an integer is the integer itself, reduced
  modulo \<open>2 ^ 61 - 1\<close>; a key goes to the first free slot of its probe sequence (the slot
  \<^verbatim>\<open>hash & mask\<close> and the 9 after it, then \<^verbatim>\<open>i * 5 + 1 + perturb\<close>, with \<^verbatim>\<open>perturb\<close>
  shifted right by 5 each time).  After an insertion that fills three fifths of the table,
  the keys are moved to a table of the first power of two above four times their number.
  The probe loop is written as it is in C, \<^verbatim>\<open>while (1)\<close>: \<open>None\<close> is a loop that does not
  return.
\<close>

type_synonym pyset = "int option list"

definition py_hash :: "int \<Rightarrow> int" where
  "py_hash n =
     (if n < 0 then (let h = - ((- n) mod (2 ^ 61 - 1)) in if h = - 1 then - 2 else h)
      else n mod (2 ^ 61 - 1))"

definition set_items :: "pyset \<Rightarrow> int list" where
  "set_items t = concat (map (\<lambda>e. case e of None \<Rightarrow> [] | Some k \<Rightarrow> [k]) t)"

partial_function (option) set_probe :: "pyset \<Rightarrow> int \<Rightarrow> int \<Rightarrow> int \<Rightarrow> nat option" where
  "set_probe t key i perturb =
     (let mask = int (length t) - 1;
          window = (if i + 9 \<le> mask then map (\<lambda>j. nat (i + int j)) [0..<10] else [nat i])
      in case find (\<lambda>j. t ! j = None \<or> t ! j = Some key) window of
           Some j \<Rightarrow> Some j
         | None \<Rightarrow>
             set_probe t key ((i * 5 + 1 + drop_bit 5 perturb) AND mask) (drop_bit 5 perturb))"

declare set_probe.simps [code]

definition set_lookup :: "pyset \<Rightarrow> int \<Rightarrow> nat option" where
  "set_lookup t key =
     set_probe t key (py_hash key AND (int (length t) - 1)) (py_hash key AND (2 ^ 64 - 1))"

function table_size :: "nat \<Rightarrow> nat \<Rightarrow> nat" where
  "table_size newsize minused =
     (if 0 < newsize \<and> newsize \<le> minused then table_size (2 * newsize) minused else newsize)"
  by pat_completeness auto
termination
  by (relation "measure (\<lambda>(newsize, minused). Suc minused - newsize)") auto

declare table_size.simps [simp del]

fun set_insert_all :: "int list \<Rightarrow> pyset \<Rightarrow> pyset option" where
  "set_insert_all [] t = Some t"
| "set_insert_all (k # ks) t =
     (case set_lookup t k of None \<Rightarrow> None | Some j \<Rightarrow> set_insert_all ks (t[j := Some k]))"

definition set_table_resize :: "pyset \<Rightarrow> nat \<Rightarrow> pyset option" where
  "set_table_resize t minused =
     set_insert_all (set_items t) (replicate (table_size 8 minused) None)"

definition set_add :: "int \<Rightarrow> pyset \<Rightarrow> pyset option" where
  "set_add key t =
     (case set_lookup t key of
        None \<Rightarrow> None
      | Some j \<Rightarrow>
          if t ! j = Some key then Some t
          else (let t' = t[j := Some key]; used = length (set_items t')
                in if used * 5 < (length t' - 1) * 3 then Some t'
                   else set_table_resize t' (if 50000 < used then used * 2 else used * 4)))"

fun set_of_list :: "int list \<Rightarrow> pyset \<Rightarrow> pyset option" where
  "set_of_list [] t = Some t"
| "set_of_list (k # ks) t =
     (case set_add k t of None \<Rightarrow> None | Some t' \<Rightarrow> set_of_list ks t')"

definition set_new :: pyset where
  "set_new = replicate 8 None"

text \<open>\<^verbatim>\<open>set_copy\<close>: a table of the source's size is copied slot by slot, another one is refilled.\<close>

definition set_copy :: "pyset \<Rightarrow> pyset option" where
  "set_copy so =
     (let used = length (set_items so) in
      case (if 7 * 3 \<le> used * 5 then set_table_resize set_new (used * 2) else Some set_new) of
        None \<Rightarrow> None
      | Some new \<Rightarrow>
          if length new = length so then Some so else set_insert_all (set_items so) new)"

text \<open>
  \<open>set_difference_list a b\<close> is \<^verbatim>\<open>list(set(a) - set(b))\<close>.  The difference is a new set,
  filled in the order of the slots of \<^verbatim>\<open>set(a)\<close>; where \<^verbatim>\<open>set(a)\<close> has more than four
  times the keys of \<^verbatim>\<open>set(b)\<close>, it is a copy of \<^verbatim>\<open>set(a)\<close> from which the keys of
  \<^verbatim>\<open>set(b)\<close> are discarded.
\<close>

definition set_difference_list :: "int list \<Rightarrow> int list \<Rightarrow> int list option" where
  "set_difference_list a b =
     (case set_of_list a set_new of
        None \<Rightarrow> None
      | Some so \<Rightarrow>
          if length (remdups b) < length (set_items so) div 4 then
            map_option (\<lambda>r. filter (\<lambda>k. k \<notin> set b) (set_items r)) (set_copy so)
          else
            map_option set_items
              (set_of_list (filter (\<lambda>k. k \<notin> set b) (set_items so)) set_new))"

subsection \<open>The table, the graph and its components\<close>

text \<open>
  A row of the data frame is the list of its cells; a cell is \<open>None\<close> where the frame has
  \<^verbatim>\<open>None\<close> or \<^verbatim>\<open>NaN\<close>, and an integer otherwise.  \<^verbatim>\<open>is_empty\<close> is true of a missing cell
  and false of every integer (the \<^verbatim>\<open>str\<close> of an integer, reduced to letters and digits, is
  a string of digits, which is not in the list of empty values).  The result is the list
  of the rows \<open>(group_id, value)\<close> of the returned frame.

  The one exception the function can raise on such a table is a \<^verbatim>\<open>TypeError\<close>:
  \<^verbatim>\<open>itemgetter(*c[i])\<close> with a single index returns the item itself and not a tuple, and the
  comprehension then iterates over an integer.
\<close>

type_synonym cell = "int option"

fun is_empty :: "cell \<Rightarrow> bool" where
  "is_empty None = True"
| "is_empty (Some v) = False"

definition dropna_all :: "cell list list \<Rightarrow> cell list list" where
  "dropna_all df = filter (\<lambda>row. list_ex (\<lambda>x. x \<noteq> None) row) df"

text \<open>\<^verbatim>\<open>itertools.combinations(e, 2)\<close>.\<close>

fun combinations2 :: "'a list \<Rightarrow> ('a \<times> 'a) list" where
  "combinations2 [] = []"
| "combinations2 (x # xs) = map (Pair x) xs @ combinations2 xs"

text \<open>\<^verbatim>\<open>DataFrame.drop_duplicates\<close> keeps the first of equal rows.\<close>

definition drop_duplicates :: "'a list \<Rightarrow> 'a list" where
  "drop_duplicates xs = rev (remdups (rev xs))"

text \<open>
  \<^verbatim>\<open>Graph.components(g, mode='strong')\<close> on the undirected graph: \<open>connectivity\<close> relates
  two vertices joined by a path of edges, taken in either direction.  igraph numbers the
  components in the order of their first vertex and lists the members of a component in
  the order of the vertices, which is the order of \<^verbatim>\<open>vertices\<close>.
\<close>

definition connectivity :: "(int \<times> int) list \<Rightarrow> (int \<times> int) set" where
  "connectivity es = trancl (set (es @ map prod.swap es))"

function components :: "(int \<times> int) set \<Rightarrow> int list \<Rightarrow> int list list" where
  "components R [] = []"
| "components R (v # vs) =
     (v # filter (\<lambda>u. (v, u) \<in> R) vs) # components R (filter (\<lambda>u. (v, u) \<notin> R) vs)"
  by pat_completeness auto
termination
  by (relation "measure (\<lambda>(R, vs). length vs)") (auto simp: less_Suc_eq_le)

text \<open>
  The rows of the components, \<^verbatim>\<open>[{'group_id': int(i), 'value': x} for x in
  itemgetter(*c[i])(g.vs['name'])]\<close> for each \<open>i\<close>.
\<close>

fun group_rows :: "nat \<Rightarrow> int list list \<Rightarrow> error + (nat \<times> int) list" where
  "group_rows i [] = Inr []"
| "group_rows i (c # cs) =
     (if length c = 1 then Inl TypeError
      else case group_rows (Suc i) cs of
             Inl e \<Rightarrow> Inl e
           | Inr rows \<Rightarrow> Inr (map (Pair i) c @ rows))"

definition find_edges_connections ::
    "cell list list \<Rightarrow> (error + (nat \<times> int) list) option" where
  "find_edges_connections df0 =
     (let df = dropna_all df0;
          edges_sets = map (\<lambda>row. sort (map the (filter (\<lambda>x. \<not> is_empty x) row))) df;
          edges_s = sort (remdups (concat (filter (\<lambda>e. length e = 1) edges_sets)));
          edges_c = concat (map combinations2 (filter (\<lambda>e. 1 < length e) edges_sets));
          vertices = sort (remdups (concat (map (\<lambda>e. [fst e, snd e]) edges_c)));
          edges = drop_duplicates edges_c
      in if edges = [] then Some (Inr (zip [0..<length edges_s] edges_s))
         else
           (let c = components (connectivity edges) vertices in
            case group_rows 0 c of
              Inl e \<Rightarrow> Some (Inl e)
            | Inr connections \<Rightarrow>
                (case set_difference_list edges_s (map snd connections) of
                   None \<Rightarrow> None
                 | Some edges_s' \<Rightarrow>
                     Some (Inr (connections
                       @ zip [length c ..< length c + length edges_s'] edges_s')))))"

section \<open>The normalizer on shared objects\<close>

text \<open>
  \<^verbatim>\<open>sort_dict\<close> assigns to the entries of the dict it is given, and \<^verbatim>\<open>sort_list\<close> passes the
  elements of its argument on to both.  To see what a caller's objects look like after a
  call, the same functions are written once more over a store: an object lives at an
  address (its index in the store) and holds the addresses of its elements; a new object is
  appended.  The lists that \<^verbatim>\<open>sorted(list(d))\<close> builds are local to \<^verbatim>\<open>sort_list\<close> and are
  kept as lists of addresses; the tuple it returns is allocated.  The first argument bounds
  the depth of the recursion; \<open>None\<close> is a call that runs out of it (a cyclic structure) or
  that meets an address outside the store.
\<close>

type_synonym addr = nat

datatype obj = OLeaf pyval | OList "addr list" | OTuple "addr list" | ODict "(string \<times> addr) list"

type_synonym heap = "obj list"

fun deref :: "nat \<Rightarrow> heap \<Rightarrow> addr \<Rightarrow> pyval option" where
  "deref 0 h a = None"
| "deref (Suc n) h a =
     (if length h \<le> a then None
      else case h ! a of
             OLeaf v \<Rightarrow> Some v
           | OList as \<Rightarrow> map_option PList (those (map (deref n h) as))
           | OTuple as \<Rightarrow> map_option PTuple (those (map (deref n h) as))
           | ODict kas \<Rightarrow>
               map_option PDict
                 (those (map (\<lambda>ka. map_option (Pair (fst ka)) (deref n h (snd ka))) kas)))"

fun is_sequence :: "obj \<Rightarrow> bool" where
  "is_sequence (OList as) = True"
| "is_sequence (OTuple as) = True"
| "is_sequence ob = False"

fun is_dict :: "obj \<Rightarrow> bool" where
  "is_dict (ODict kas) = True"
| "is_dict ob = False"

fun elements :: "obj \<Rightarrow> addr list" where
  "elements (OList as) = as"
| "elements (OTuple as) = as"
| "elements ob = []"

fun items :: "obj \<Rightarrow> (string \<times> addr) list" where
  "items (ODict kas) = kas"
| "items ob = []"

definition sorted_addrs :: "nat \<Rightarrow> heap \<Rightarrow> addr list \<Rightarrow> addr list option" where
  "sorted_addrs n h as =
     (case those (map (deref n h) as) of
        None \<Rightarrow> None
      | Some vs \<Rightarrow>
          Some (map fst (py_sorted (\<lambda>x y. cmp_to_key compare_items (snd x) (snd y)) (zip as vs))))"

definition dict_set :: "heap \<Rightarrow> addr \<Rightarrow> string \<Rightarrow> addr \<Rightarrow> heap" where
  "dict_set h d k v = h[d := ODict (map (\<lambda>kv. if fst kv = k then (k, v) else kv) (items (h ! d)))]"

text \<open>
  \<open>sort_list_loop\<close> is the loop \<^verbatim>\<open>for i in range(len(d))\<close> of \<^verbatim>\<open>sort_list\<close>, over the
  sorted local list; \<open>sort_dict_loop\<close> is the loop \<^verbatim>\<open>for k in d.keys()\<close> of \<^verbatim>\<open>sort_dict\<close>,
  which reads \<^verbatim>\<open>d[k]\<close> from the store at each step.
\<close>

function (sequential) sort_list_h :: "nat \<Rightarrow> heap \<Rightarrow> addr \<Rightarrow> (heap \<times> addr) option"
  and sort_list_loop :: "nat \<Rightarrow> heap \<Rightarrow> addr list \<Rightarrow> (heap \<times> addr list) option"
  and sort_dict_h :: "nat \<Rightarrow> heap \<Rightarrow> addr \<Rightarrow> heap option"
  and sort_dict_loop :: "nat \<Rightarrow> heap \<Rightarrow> addr \<Rightarrow> string list \<Rightarrow> heap option"
where
  "sort_list_h 0 h d = None"
| "sort_list_h (Suc n) h d =
     (if length h \<le> d then None
      else case sorted_addrs n h (elements (h ! d)) of
             None \<Rightarrow> None
           | Some d' \<Rightarrow>
               (case sort_list_loop n h d' of
                  None \<Rightarrow> None
                | Some (h', d'') \<Rightarrow> Some (h' @ [OTuple d''], length h')))"
| "sort_list_loop n h [] = Some (h, [])"
| "sort_list_loop n h (x # xs) =
     (if length h \<le> x then None
      else if is_sequence (h ! x) then
        (case sort_list_h n h x of
           None \<Rightarrow> None
         | Some (h1, t) \<Rightarrow>
             (case sort_list_loop n h1 xs of
                None \<Rightarrow> None
              | Some (h2, ys) \<Rightarrow> Some (h2, t # ys)))
      else if is_dict (h ! x) then
        (case sort_dict_h n h x of
           None \<Rightarrow> None
         | Some h1 \<Rightarrow>
             (case sort_list_loop n h1 xs of
                None \<Rightarrow> None
              | Some (h2, ys) \<Rightarrow> Some (h2, x # ys)))
      else
        (case sort_list_loop n h xs of
           None \<Rightarrow> None
         | Some (h2, ys) \<Rightarrow> Some (h2, x # ys)))"
| "sort_dict_h 0 h d = None"
| "sort_dict_h (Suc n) h d =
     (if length h \<le> d then None else sort_dict_loop n h d (map fst (items (h ! d))))"
| "sort_dict_loop n h d [] = Some h"
| "sort_dict_loop n h d (k # ks) =
     (case map_of (items (h ! d)) k of
        None \<Rightarrow> None
      | Some v \<Rightarrow>
          if length h \<le> v then None
          else if is_sequence (h ! v) then
            (case sort_list_h n h v of
               None \<Rightarrow> None
             | Some (h1, t) \<Rightarrow> sort_dict_loop n (dict_set h1 d k t) d ks)
          else if is_dict (h ! v) then
            (case sort_dict_h n h v of
               None \<Rightarrow> None
             | Some h1 \<Rightarrow> sort_dict_loop n h1 d ks)
          else sort_dict_loop n h d ks)"

  by pat_completeness auto
termination
  apply (relation "(\<lambda>x. case x of
       Inl (Inl (n, h, d)) \<Rightarrow> 2 * n
     | Inl (Inr (n, h, xs)) \<Rightarrow> 2 * n + 1
     | Inr (Inl (n, h, d)) \<Rightarrow> 2 * n
     | Inr (Inr (n, h, d, ks)) \<Rightarrow> 2 * n + 1) <*mlex*>
     measure (\<lambda>x. case x of
       Inl (Inl (n, h, d)) \<Rightarrow> 0
     | Inl (Inr (n, h, xs)) \<Rightarrow> length xs
     | Inr (Inl (n, h, d)) \<Rightarrow> 0
     | Inr (Inr (n, h, d, ks)) \<Rightarrow> length ks)")
   apply (auto simp: mlex_prod_def)
  done

definition data_standardization_h :: "nat \<Rightarrow> heap \<Rightarrow> addr \<Rightarrow> (heap \<times> pyval) option" where
  "data_standardization_h n h data =
     (if length h \<le> data then None
      else if is_sequence (h ! data) then
        (case sort_list_h n h data of
           None \<Rightarrow> None
         | Some (h', t) \<Rightarrow> map_option (\<lambda>v. (h', PStr (json_dumps v))) (deref n h' t))
      else if is_dict (h ! data) then
        (case sort_dict_h n h data of
           None \<Rightarrow> None
         | Some h' \<Rightarrow> map_option (\<lambda>v. (h', PStr (json_dumps v))) (deref n h' data))
      else map_option (Pair h) (deref n h data))"


text \<open>
  What a call may change in the store it is given.  An entry of a dict that was bound to
  \<open>v\<close> is afterwards bound to \<open>v'\<close>: to the same object, or to a tuple that did not exist
  before the call; and to the same object if \<open>v\<close> was neither a list nor a tuple.  An object
  that is not a dict is left as it was; a dict keeps its keys, in their order.
\<close>

fun is_tuple :: "obj \<Rightarrow> bool" where
  "is_tuple (OTuple as) = True"
| "is_tuple ob = False"

definition rebound :: "heap \<Rightarrow> heap \<Rightarrow> addr \<Rightarrow> addr \<Rightarrow> bool" where
  "rebound h h' v v' =
     ((v' = v \<or> (length h \<le> v' \<and> v' < length h' \<and> is_tuple (h' ! v')))
      \<and> (v < length h \<and> \<not> is_sequence (h ! v) \<longrightarrow> v' = v))"

definition frame :: "heap \<Rightarrow> heap \<Rightarrow> bool" where
  "frame h h' =
     (length h \<le> length h'
      \<and> (\<forall>p<length h.
            if is_dict (h ! p)
            then is_dict (h' ! p) \<and> map fst (items (h' ! p)) = map fst (items (h ! p))
              \<and> (\<forall>k v. map_of (items (h ! p)) k = Some v \<longrightarrow>
                    (\<exists>v'. map_of (items (h' ! p)) k = Some v' \<and> rebound h h' v v'))
            else h' ! p = h ! p))"

section \<open>Supported values\<close>

text \<open>
  The values the normalizer is specified for: null, booleans, integers, floats, strings
  and datetimes, nested in lists, tuples and dicts.  The text of a float is what
  \<^verbatim>\<open>float.__repr__\<close> can print: digits, a sign, a point, an exponent, \<^verbatim>\<open>inf\<close> or \<^verbatim>\<open>nan\<close>,
  and never digits alone.  A value is a tree: no object occurs twice in it.
\<close>

definition float_repr_ok :: "string \<Rightarrow> bool" where
  "float_repr_ok r =
     (r \<noteq> [] \<and> list_all (\<lambda>c. c \<in> set ''0123456789.e+-infa'') r
      \<and> list_ex (\<lambda>c. c \<in> set ''.einfa'') r)"

fun supported :: "pyval \<Rightarrow> bool" where
  "supported PNone = True"
| "supported (PBool b) = True"
| "supported (PInt i) = True"
| "supported (PFloat r) = float_repr_ok r"
| "supported (PStr s) = True"
| "supported (PDatetime d) = True"
| "supported (PList xs) = list_all supported xs"
| "supported (PTuple xs) = list_all supported xs"
| "supported (PDict kvs) = list_all (\<lambda>kv. supported (snd kv)) kvs"
| "supported (PBytes b) = False"
| "supported (PObject cls s r) = False"

text \<open>What \<^verbatim>\<open>compare_items\<close> looks at: the \<^verbatim>\<open>str\<close> form, then the rank of the type.\<close>

definition sort_key_of :: "pyval \<Rightarrow> string \<times> int" where
  "sort_key_of v = (py_str v, type_order (type_name v))"

section \<open>Properties\<close>

subsection \<open>The comparator\<close>




text \<open>
  Claim C9.  A value whose type name is not a key of \<^verbatim>\<open>type_order\<close> is compared without
  an error: its rank reads as 0, so against a value of a ranked type with the same \<^verbatim>\<open>str\<close>
  form it compares as smaller, in both argument orders, and \<^verbatim>\<open>sorted\<close> puts it first.
\<close>

theorem unknown_type_rank_zero:
  assumes "type_name a \<notin> set ranked_types"
    and "type_name b \<in> set ranked_types"
    and "py_str a = py_str b"
  shows "type_order (type_name a) = 0 \<and> compare_items a b = - 1 \<and> compare_items b a = 1
         \<and> py_sorted (cmp_to_key compare_items) [b, a] = [a, b]
         \<and> py_sorted (cmp_to_key compare_items) [a, b] = [a, b]"
proof -
  have zero: "type_order (type_name a) = 0"
    using assms(1) by (auto simp: ranked_types_def type_order_def type_order_entries_def)
  have pos: "0 < type_order (type_name b)"
    using assms(2) by (auto simp: ranked_types_def type_order_def type_order_entries_def)
  have ne: "type_name a \<noteq> type_name b"
    using assms(1,2) by auto
  have ab: "compare_items a b = - 1" and ba: "compare_items b a = 1"
    using zero pos ne assms(3) by (simp_all add: compare_items_def Let_def)
  show ?thesis
    using zero ab ba by (simp add: py_sorted_def cmp_to_key_def)
qed

theorem unknown_type_rank_zero_witness:
  "compare_items (PObject ''Decimal'' ''1'' ''Decimal('1')'') (PInt 1) = - 1
   \<and> compare_items (PInt 1) (PObject ''Decimal'' ''1'' ''Decimal('1')'') = 1
   \<and> compare_items (PTuple [PInt 1, PInt 2]) (PStr ''(1, 2)'') = - 1
   \<and> py_sorted (cmp_to_key compare_items) [PInt 1, PObject ''Decimal'' ''1'' ''Decimal('1')'']
        = [PObject ''Decimal'' ''1'' ''Decimal('1')'', PInt 1]"
proof -
  have s1: "py_str (PObject ''Decimal'' ''1'' ''Decimal('1')'') = py_str (PInt 1)"
    by code_simp
  have s2: "py_str (PTuple [PInt 1, PInt 2]) = py_str (PStr ''(1, 2)'')"
    by code_simp
  show ?thesis
    using unknown_type_rank_zero [OF _ _ s1] unknown_type_rank_zero [OF _ _ s2]
    by (simp add: ranked_types_def)
qed

subsection \<open>The identifier\<close>

text \<open>
  The exceptions of \<^verbatim>\<open>convert_data_to_id\<close>: a call raises exactly when its input is a
  list, a tuple or a dict that holds, at any depth, an integer too long to print, and
  otherwise returns what the function without exceptions gives.
\<close>

lemma lt_exc:
  "cmp_to_key_exc compare_items_exc a b =
     (if has_long_int a \<or> has_long_int b then Inl ValueError
      else Inr (cmp_to_key compare_items a b))"
  by (simp add: cmp_to_key_exc_def compare_items_exc_def py_str_exc_def cmp_to_key_def)

lemma insort_exc_short:
  "\<not> has_long_int x \<Longrightarrow> \<not> list_ex has_long_int ys \<Longrightarrow>
   insort_exc (cmp_to_key_exc compare_items_exc) x ys
     = Inr (insort_lt (cmp_to_key compare_items) x ys)"
  by (induction ys) (simp_all add: lt_exc)

lemma insort_exc_long:
  "ys \<noteq> [] \<Longrightarrow> has_long_int x \<or> has_long_int (hd ys) \<Longrightarrow>
   insort_exc (cmp_to_key_exc compare_items_exc) x ys = Inl ValueError"
  by (cases ys) (auto simp: lt_exc)

lemma py_sorted_Cons: "py_sorted lt (x # xs) = insort_lt lt x (py_sorted lt xs)"
  by (simp add: py_sorted_def)

lemma py_sorted_Nil [simp]: "py_sorted lt [] = []"
  by (simp add: py_sorted_def)

lemma py_sorted_eq_Nil [simp]: "(py_sorted lt xs = []) = (xs = [])"
  using set_py_sorted [of lt xs] by (metis set_empty)

lemma py_sorted_exc_char:
  "py_sorted_exc (cmp_to_key_exc compare_items_exc) xs =
     (if 2 \<le> length xs \<and> list_ex has_long_int xs then Inl ValueError
      else Inr (py_sorted (cmp_to_key compare_items) xs))"
proof (induction xs)
  case Nil
  then show ?case by simp
next
  case (Cons x xs)
  show ?case
  proof (cases xs)
    case Nil
    then show ?thesis by (simp add: py_sorted_Cons)
  next
    case (Cons y ys)
    show ?thesis
    proof (cases "list_ex has_long_int xs")
      case True
      show ?thesis
      proof (cases ys)
        case Nil
        then show ?thesis
          using True Cons by (simp add: py_sorted_Cons lt_exc)
      next
        case c: (Cons z zs)
        then show ?thesis
          using True Cons Cons.IH by simp
      qed
    next
      case False
      then have s: "py_sorted_exc (cmp_to_key_exc compare_items_exc) xs
          = Inr (py_sorted (cmp_to_key compare_items) xs)"
        using Cons.IH by simp
      have nl: "\<not> list_ex has_long_int (py_sorted (cmp_to_key compare_items) xs)"
        using False by (simp add: list_ex_iff set_py_sorted)
      have ne: "py_sorted (cmp_to_key compare_items) xs \<noteq> []"
        using Cons by simp
      show ?thesis
      proof (cases "has_long_int x")
        case True
        then show ?thesis
          using s ne Cons by (simp add: insort_exc_long)
      next
        case nx: False
        then show ?thesis
          using s nl False by (simp add: insort_exc_short py_sorted_Cons)
      qed
    qed
  qed
qed

lemma try_map_Inr:
  "try_map f xs = Inr ys \<Longrightarrow> (\<And>x y. x \<in> set xs \<Longrightarrow> f x = Inr y \<Longrightarrow> y = g x) \<Longrightarrow> ys = map g xs"
  by (induction xs arbitrary: ys) (auto split: sum.splits)

lemma try_map_Inl:
  "try_map f xs = Inl e \<Longrightarrow> \<exists>x\<in>set xs. f x = Inl e"
  by (induction xs) (auto split: sum.splits)

lemma sort_exc_sound:
  "(\<forall>e. sort_dict_exc d = Inl e \<longrightarrow> e = ValueError \<and> list_ex (\<lambda>kv. has_long_int (snd kv)) d)
   \<and> (\<forall>r. sort_dict_exc d = Inr r \<longrightarrow> r = sort_dict d)"
  "(\<forall>e. sort_list_exc xs = Inl e \<longrightarrow> e = ValueError \<and> list_ex has_long_int xs)
   \<and> (\<forall>t. sort_list_exc xs = Inr t \<longrightarrow> t = sort_list xs)"
proof (induction d and xs rule: sort_dict_sort_list.induct)
  case (1 d)
  let ?f = "\<lambda>kv. map_sum id (Pair (fst kv))
        (case snd kv of
           PList xs \<Rightarrow> sort_list_exc xs
         | PTuple xs \<Rightarrow> sort_list_exc xs
         | PDict d' \<Rightarrow> map_sum id PDict (sort_dict_exc d')
         | v \<Rightarrow> Inr v)"
  let ?g = "\<lambda>kv. (fst kv,
            (case snd kv of
               PList xs \<Rightarrow> sort_list xs
             | PTuple xs \<Rightarrow> sort_list xs
             | PDict d' \<Rightarrow> PDict (sort_dict d')
             | v \<Rightarrow> v))"
  have r: "y = ?g kv" if "kv \<in> set d" "?f kv = Inr y" for kv y
    by (insert that 1 [of kv], cases kv; cases "snd kv") auto
  have l: "e = ValueError \<and> has_long_int (snd kv)" if "kv \<in> set d" "?f kv = Inl e" for kv e
    by (insert that 1 [of kv], cases kv; cases "snd kv") (auto simp: list_ex_iff)
  show ?case
  proof (intro conjI allI impI)
    fix e assume "sort_dict_exc d = Inl e"
    then have "\<exists>kv\<in>set d. ?f kv = Inl e"
      using try_map_Inl [of ?f d e] by (simp add: sort_dict_exc.simps)
    then obtain kv where kv: "kv \<in> set d" and fkv: "?f kv = Inl e"
      by blast
    show "e = ValueError"
      using l [OF kv fkv] by simp
    show "list_ex (\<lambda>kv. has_long_int (snd kv)) d"
      using l [OF kv fkv] kv unfolding list_ex_iff by blast
  next
    fix r' assume "sort_dict_exc d = Inr r'"
    then have "r' = map ?g d"
      using try_map_Inr [of ?f d r' ?g] r by (simp add: sort_dict_exc.simps)
    then show "r' = sort_dict d"
      by (simp add: sort_dict.simps)
  qed
next
  case (2 d)
  let ?f = "\<lambda>x. case x of
                 PList xs \<Rightarrow> sort_list_exc xs
               | PTuple xs \<Rightarrow> sort_list_exc xs
               | PDict d'' \<Rightarrow> map_sum id PDict (sort_dict_exc d'')
               | v \<Rightarrow> Inr v"
  let ?g = "\<lambda>x. (case x of
               PList xs \<Rightarrow> sort_list xs
             | PTuple xs \<Rightarrow> sort_list xs
             | PDict d' \<Rightarrow> PDict (sort_dict d')
             | v \<Rightarrow> v)"
  let ?s = "py_sorted (cmp_to_key compare_items) d"
  have r: "y = ?g x" if "x \<in> set ?s" "?f x = Inr y" for x y
    by (insert that 2 [of x], cases x) auto
  have l: "e = ValueError \<and> has_long_int x" if "x \<in> set ?s" "?f x = Inl e" for x e
    by (insert that 2 [of x], cases x) (auto simp: list_ex_iff)
  show ?case
  proof (cases "2 \<le> length d \<and> list_ex has_long_int d")
    case True
    then show ?thesis
      by (simp add: sort_list_exc.simps py_sorted_exc_char)
  next
    case False
    then have "py_sorted_exc (cmp_to_key_exc compare_items_exc) d = Inr ?s"
      using py_sorted_exc_char [of d] by auto
    then have s: "sort_list_exc d = map_sum id PTuple (try_map ?f ?s)"
      by (simp add: sort_list_exc.simps)
    show ?thesis
    proof (intro conjI allI impI)
      fix e assume "sort_list_exc d = Inl e"
      then have "\<exists>x\<in>set ?s. ?f x = Inl e"
        using try_map_Inl [of ?f ?s e] s by simp
      then obtain x where x: "x \<in> set ?s" and fx: "?f x = Inl e"
        by blast
      show "e = ValueError"
        using l [OF x fx] by simp
      show "list_ex has_long_int d"
        using l [OF x fx] x unfolding list_ex_iff set_py_sorted by blast
    next
      fix t assume "sort_list_exc d = Inr t"
      then obtain ys where "try_map ?f ?s = Inr ys" "t = PTuple ys"
        using s by auto
      then have "t = PTuple (map ?g ?s)"
        using try_map_Inr [of ?f ?s ys ?g] r by simp
      then show "t = sort_list d"
        by (simp add: sort_list.simps)
    qed
  qed
qed

lemma sort_keeps_long_int:
  "list_ex (\<lambda>kv. has_long_int (snd kv)) (sort_dict d) = list_ex (\<lambda>kv. has_long_int (snd kv)) d"
  "has_long_int (sort_list xs) = list_ex has_long_int xs"
proof (induction d and xs rule: sort_dict_sort_list.induct)
  case (1 d)
  have "has_long_int (case snd kv of
               PList xs \<Rightarrow> sort_list xs
             | PTuple xs \<Rightarrow> sort_list xs
             | PDict d' \<Rightarrow> PDict (sort_dict d')
             | v \<Rightarrow> v) = has_long_int (snd kv)" if "kv \<in> set d" for kv
    by (insert that 1 [of kv], cases "snd kv") auto
  then show ?case
    by (simp add: sort_dict.simps list_ex_iff)
next
  case (2 d)
  have "has_long_int (case x of
               PList xs \<Rightarrow> sort_list xs
             | PTuple xs \<Rightarrow> sort_list xs
             | PDict d' \<Rightarrow> PDict (sort_dict d')
             | v \<Rightarrow> v) = has_long_int x" if "x \<in> set (py_sorted (cmp_to_key compare_items) d)" for x
    by (insert that 2 [of x], cases x) auto
  then show ?case
    by (simp add: sort_list.simps list_ex_iff set_py_sorted)
qed

lemma data_standardization_exc_char:
  "data_standardization_exc data =
     (if is_container data \<and> has_long_int data then Inl ValueError
      else Inr (data_standardization data))"
proof (cases data)
  case (PList xs)
  then show ?thesis
    using sort_exc_sound(2) [of xs] sort_keeps_long_int(2) [of xs]
    by (cases "sort_list_exc xs")
       (auto simp: data_standardization_exc_def data_standardization_def json_dumps_exc_def)
next
  case (PTuple xs)
  then show ?thesis
    using sort_exc_sound(2) [of xs] sort_keeps_long_int(2) [of xs]
    by (cases "sort_list_exc xs")
       (auto simp: data_standardization_exc_def data_standardization_def json_dumps_exc_def)
next
  case (PDict d)
  then show ?thesis
    using sort_exc_sound(1) [of d] sort_keeps_long_int(1) [of d]
    by (cases "sort_dict_exc d")
       (auto simp: data_standardization_exc_def data_standardization_def json_dumps_exc_def)
qed (simp_all add: data_standardization_exc_def data_standardization_def)

lemma convert_data_to_id_exc_char:
  "convert_data_to_id_exc data method =
     (if is_container data \<and> has_long_int data then Inl ValueError
      else Inr (convert_data_to_id data method))"
  by (simp add: convert_data_to_id_exc_def convert_data_to_id_def data_standardization_exc_char)

lemma int_too_long_limit:
  "int_too_long (10 ^ int_max_str_digits)" "int_too_long (- (10 ^ int_max_str_digits))"
  by (simp_all add: int_too_long_def)

lemma int_short: "\<bar>i\<bar> < 10 \<Longrightarrow> \<not> int_too_long i"
proof -
  have "(10::int) ^ 1 \<le> 10 ^ int_max_str_digits"
    by (rule power_increasing) (simp_all add: int_max_str_digits_def)
  then show "\<bar>i\<bar> < 10 \<Longrightarrow> \<not> int_too_long i"
    by (simp add: int_too_long_def)
qed

text \<open>
  Claim C6.  \<^verbatim>\<open>convert_data_to_id\<close> does raise: on \<^verbatim>\<open>[10 ** 4300]\<close> and on
  \<^verbatim>\<open>{'n': -10 ** 4300}\<close> the standardized data would be a \<^verbatim>\<open>str\<close> and the method is
  valid, but \<^verbatim>\<open>json.dumps\<close> cannot print the integer and the call ends in \<^verbatim>\<open>ValueError\<close>:
  it returns neither \<^verbatim>\<open>None\<close> nor an identifier.
\<close>

theorem convert_data_to_id_raises:
  "convert_data_to_id_exc (PList [PInt (10 ^ int_max_str_digits)]) ''sha256'' = Inl ValueError
   \<and> convert_data_to_id_exc (PDict [(''n'', PInt (- (10 ^ int_max_str_digits)))]) ''uuid'' = Inl ValueError
   \<and> is_str (data_standardization (PList [PInt (10 ^ int_max_str_digits)]))
   \<and> is_str (data_standardization (PDict [(''n'', PInt (- (10 ^ int_max_str_digits)))]))"
  by (simp add: convert_data_to_id_exc_char int_too_long_limit data_standardization_def)

text \<open>
  Claim C6, amended.  A call of \<^verbatim>\<open>convert_data_to_id(data, method)\<close> ends in one of three
  ways.  It raises \<^verbatim>\<open>ValueError\<close>, and nothing else, exactly when \<^verbatim>\<open>data\<close> is a list, a
  tuple or a dict that holds an integer of more than 4300 digits.  It returns \<^verbatim>\<open>None\<close>
  exactly when standardization returns and its result is neither \<^verbatim>\<open>bytes\<close> nor \<^verbatim>\<open>str\<close>,
  or \<^verbatim>\<open>method\<close> is neither \<^verbatim>\<open>'uuid'\<close> nor \<^verbatim>\<open>'sha256'\<close>.  It returns an identifier
  exactly when standardization returns \<^verbatim>\<open>bytes\<close> or a \<^verbatim>\<open>str\<close> and the method is one of the
  two.  A bare integer (of any length), \<^verbatim>\<open>None\<close> and a boolean are standardized to
  themselves and give \<^verbatim>\<open>None\<close>.  Whenever the call does not raise, its result is that of
  \<open>convert_data_to_id\<close>.
\<close>

theorem convert_data_to_id_exc_cases:
  "(convert_data_to_id_exc data method = Inl ValueError) = (is_container data \<and> has_long_int data)
   \<and> convert_data_to_id_exc data method \<noteq> Inl TypeError
   \<and> (convert_data_to_id_exc data method = Inr None)
       = (\<exists>data_std. data_standardization_exc data = Inr data_std
            \<and> ((\<not> is_bytes data_std \<and> \<not> is_str data_std)
                \<or> (method \<noteq> ''uuid'' \<and> method \<noteq> ''sha256'')))
   \<and> (\<exists>ident. convert_data_to_id_exc data method = Inr (Some ident))
       = (\<exists>data_std. data_standardization_exc data = Inr data_std
            \<and> (is_bytes data_std \<or> is_str data_std)
            \<and> (method = ''uuid'' \<or> method = ''sha256''))
   \<and> (\<not> (is_container data \<and> has_long_int data)
        \<longrightarrow> convert_data_to_id_exc data method = Inr (convert_data_to_id data method))
   \<and> convert_data_to_id_exc (PInt i) method = Inr None
   \<and> convert_data_to_id_exc PNone method = Inr None
   \<and> convert_data_to_id_exc (PBool b) method = Inr None"
proof -
  have a: "(convert_data_to_id_exc data method = Inl ValueError) = (is_container data \<and> has_long_int data)"
    by (simp add: convert_data_to_id_exc_char)
  have b: "convert_data_to_id_exc data method \<noteq> Inl TypeError"
    by (simp add: convert_data_to_id_exc_char)
  have c: "(convert_data_to_id_exc data method = Inr None)
       = (\<exists>data_std. data_standardization_exc data = Inr data_std
            \<and> ((\<not> is_bytes data_std \<and> \<not> is_str data_std)
                \<or> (method \<noteq> ''uuid'' \<and> method \<noteq> ''sha256'')))"
    by (cases "data_standardization_exc data"; cases "projr (data_standardization_exc data)")
       (auto simp: convert_data_to_id_exc_def Let_def)
  have d: "(\<exists>ident. convert_data_to_id_exc data method = Inr (Some ident))
       = (\<exists>data_std. data_standardization_exc data = Inr data_std
            \<and> (is_bytes data_std \<or> is_str data_std)
            \<and> (method = ''uuid'' \<or> method = ''sha256''))"
    by (cases "data_standardization_exc data"; cases "projr (data_standardization_exc data)")
       (auto simp: convert_data_to_id_exc_def Let_def)
  have e: "\<not> (is_container data \<and> has_long_int data)
        \<longrightarrow> convert_data_to_id_exc data method = Inr (convert_data_to_id data method)"
    by (simp add: convert_data_to_id_exc_char)
  have f: "convert_data_to_id_exc v method = Inr None"
    if "v = PInt i \<or> v = PNone \<or> v = PBool b" for v
    using that by (auto simp: convert_data_to_id_exc_def data_standardization_exc_def)
  show ?thesis
    using a b c d e f by blast
qed

theorem convert_data_to_id_exc_cases_witness:
  "convert_data_to_id_exc (PStr ''test string'') ''invalid_method'' = Inr None
   \<and> convert_data_to_id_exc (PFloat ''1.5'') ''uuid'' = Inr None
   \<and> convert_data_to_id_exc (PList [PInt 1]) ''sha256''
       = Inr (convert_data_to_id (PList [PInt 1]) ''sha256'')
   \<and> (\<exists>ident. convert_data_to_id_exc (PBytes []) ''uuid'' = Inr (Some ident))
   \<and> convert_data_to_id_exc (PList [PInt 1, PInt (10 ^ int_max_str_digits)]) ''uuid''
       = Inl ValueError"
proof -
  have a: "convert_data_to_id_exc (PStr ''test string'') ''invalid_method'' = Inr None"
    using convert_data_to_id_exc_cases [of "PStr ''test string''" "''invalid_method''"]
    by (simp add: data_standardization_exc_def)
  have b: "convert_data_to_id_exc (PFloat ''1.5'') ''uuid'' = Inr None"
    using convert_data_to_id_exc_cases [of "PFloat ''1.5''" "''uuid''"]
    by (simp add: data_standardization_exc_def)
  have c: "convert_data_to_id_exc (PList [PInt 1]) ''sha256''
       = Inr (convert_data_to_id (PList [PInt 1]) ''sha256'')"
    using convert_data_to_id_exc_cases [of "PList [PInt 1]" "''sha256''"]
    by (simp add: int_short)
  have "\<exists>data_std. data_standardization_exc (PBytes []) = Inr data_std
      \<and> (is_bytes data_std \<or> is_str data_std) \<and> (''uuid'' = ''uuid'' \<or> ''uuid'' = ''sha256'')"
    by (simp add: data_standardization_exc_def)
  then have d: "\<exists>ident. convert_data_to_id_exc (PBytes []) ''uuid'' = Inr (Some ident)"
    using convert_data_to_id_exc_cases [of "PBytes []" "''uuid''"]
    by blast
  have e: "convert_data_to_id_exc (PList [PInt 1, PInt (10 ^ int_max_str_digits)]) ''uuid''
       = Inl ValueError"
    using convert_data_to_id_exc_cases [of "PList [PInt 1, PInt (10 ^ int_max_str_digits)]" "''uuid''"]
    by (simp add: int_too_long_limit)
  show ?thesis
    using a b c d e by blast
qed


subsection \<open>Digests of the canonical forms used below\<close>

lemma sha256_empty:
  "sha256_hexdigest []
     = ''e3b0c44298fc1c149afbf4c8996fb92427ae41e4649b934ca495991b7852b855''"
  by code_simp

lemma sha256_empty_list:
  "sha256_hexdigest (utf8_encode ''[]'')
     = ''4f53cda18c2baa0c0354bb5f9a3ecbe5ed12ab4d8e11ba873c2f11161202b945''"
  by code_simp

lemma sha256_empty_dict:
  "sha256_hexdigest (utf8_encode ''{}'')
     = ''44136fa355b3678a1146ad16f7e8649e94fb4fc21fe77e8310c060f61caaff8a''"
  by code_simp

lemma sha256_nested_a:
  "sha256_hexdigest (utf8_encode ''[[2, 4], [1, 3]]'')
     = ''0a3708bd7a2d0ebc1bb672d72ae5d3a614da3e44894f3f3c73f6ef6f7b27ff75''"
  by code_simp

lemma sha256_nested_b:
  "sha256_hexdigest (utf8_encode ''[[1, 3], [2, 4]]'')
     = ''ba9632192561d53d2ec3fcba15adec705b10b49f652505a11483af92ed4ecec0''"
  by code_simp

lemma uuid_of_empty:
  "convert_text_to_uuid
     (''sha256='' @ ''e3b0c44298fc1c149afbf4c8996fb92427ae41e4649b934ca495991b7852b855'')
     = ''5150bdd9-c6ab-3d68-a915-e58d5ac56d50''"
  by code_simp

lemma uuid_of_empty_list:
  "convert_text_to_uuid
     (''sha256='' @ ''4f53cda18c2baa0c0354bb5f9a3ecbe5ed12ab4d8e11ba873c2f11161202b945'')
     = ''2061443b-712a-3816-bbf6-0e31a077be9f''"
  by code_simp

lemma uuid_of_empty_dict:
  "convert_text_to_uuid
     (''sha256='' @ ''44136fa355b3678a1146ad16f7e8649e94fb4fc21fe77e8310c060f61caaff8a'')
     = ''46369ab4-05ab-36da-bb30-49738a5110c9''"
  by code_simp

lemma standardize_empty:
  "data_standardization (PList []) = PStr ''[]''"
  "data_standardization (PDict []) = PStr ''{}''"
  by code_simp+

lemma standardize_nested:
  "data_standardization (PList [PList [PInt 3, PInt 1], PList [PInt 2, PInt 4]])
     = PStr ''[[2, 4], [1, 3]]''"
  "data_standardization (PList [PList [PInt 1, PInt 3], PList [PInt 2, PInt 4]])
     = PStr ''[[1, 3], [2, 4]]''"
  by code_simp+

text \<open>
  Claim C5.  The claim asks for four distinct constants.  Empty bytes and the empty string
  are both hashed as zero bytes (claim C10), so they share one identifier, as the
  repository's test \<^verbatim>\<open>test_empty_input\<close> expects; the four inputs give three values.
\<close>

theorem empty_input_identifiers_not_distinct:
  "\<not> distinct
       [convert_data_to_id (PBytes []) ''uuid'', convert_data_to_id (PStr []) ''uuid'',
        convert_data_to_id (PList []) ''uuid'', convert_data_to_id (PDict []) ''uuid'']"
  by (simp add: convert_data_to_id_def data_standardization_def utf8_encode_def)

text \<open>
  Claim C5, amended.  The compact identifier of each of the four empty inputs is a fixed
  value: the one of \<^verbatim>\<open>test_empty_input\<close>.  Empty bytes and the empty string get the same
  one; the empty sequence and the empty mapping get two others.
\<close>

theorem empty_input_identifiers:
  "convert_data_to_id (PBytes []) ''uuid'' = Some ''5150bdd9-c6ab-3d68-a915-e58d5ac56d50''
   \<and> convert_data_to_id (PStr []) ''uuid'' = Some ''5150bdd9-c6ab-3d68-a915-e58d5ac56d50''
   \<and> convert_data_to_id (PList []) ''uuid'' = Some ''2061443b-712a-3816-bbf6-0e31a077be9f''
   \<and> convert_data_to_id (PDict []) ''uuid'' = Some ''46369ab4-05ab-36da-bb30-49738a5110c9''"
proof -
  have u: "utf8_encode [] = []"
    by (simp add: utf8_encode_def)
  show ?thesis
    unfolding convert_data_to_id_def standardize_empty
    by (simp only: Let_def pyval.case option.case u sha256_empty sha256_empty_list
        sha256_empty_dict uuid_of_empty uuid_of_empty_list uuid_of_empty_dict
        data_standardization_def refl if_True simp_thms)
qed

text \<open>
  Claim C1, at a failing input.  \<^verbatim>\<open>sort_list\<close> sorts a sequence on the \<^verbatim>\<open>str\<close> of its
  elements as they come in and normalizes the elements afterwards, so the order inside a
  nested list decides where that list is placed: \<^verbatim>\<open>[[3, 1], [2, 4]]\<close> and
  \<^verbatim>\<open>[[1, 3], [2, 4]]\<close> differ only in the order of the first inner list, and get different
  canonical strings and different identifiers.  The same happens to a dict inside a list,
  whose \<^verbatim>\<open>str\<close> follows its insertion order.
\<close>

theorem nested_order_changes_id:
  "convert_data_to_id (PList [PList [PInt 3, PInt 1], PList [PInt 2, PInt 4]]) ''sha256''
     = Some ''0a3708bd7a2d0ebc1bb672d72ae5d3a614da3e44894f3f3c73f6ef6f7b27ff75''
   \<and> convert_data_to_id (PList [PList [PInt 1, PInt 3], PList [PInt 2, PInt 4]]) ''sha256''
     = Some ''ba9632192561d53d2ec3fcba15adec705b10b49f652505a11483af92ed4ecec0''
   \<and> data_standardization
         (PList [PDict [(''a'', PInt 1), (''b'', PInt 2)], PDict [(''a'', PInt 2)]])
       \<noteq> data_standardization
         (PList [PDict [(''b'', PInt 2), (''a'', PInt 1)], PDict [(''a'', PInt 2)]])"
proof -
  have d: "data_standardization
         (PList [PDict [(''a'', PInt 1), (''b'', PInt 2)], PDict [(''a'', PInt 2)]])
       \<noteq> data_standardization
         (PList [PDict [(''b'', PInt 2), (''a'', PInt 1)], PDict [(''a'', PInt 2)]])"
    by code_simp
  show ?thesis
    unfolding convert_data_to_id_def standardize_nested
    using d
    by (simp only: Let_def pyval.case option.case sha256_nested_a sha256_nested_b
        refl if_True if_False simp_thms list.inject char.inject)
qed

subsection \<open>Entity grouping\<close>

text \<open>
  Claim C8.  On the rows \<^verbatim>\<open>[(1, 2), (2, 3), (4, None), (5, None)]\<close> the result has five
  rows: the component of 1, 2 and 3 is group 0, and the singletons 4 and 5 are the groups 1
  and 2, numbered from one above the largest component id, 4 before 5.
\<close>

theorem scenario_groups:
  "find_edges_connections [[Some 1, Some 2], [Some 2, Some 3], [Some 4, None], [Some 5, None]]
     = Some (Inr [(0, 1), (0, 2), (0, 3), (1, 4), (2, 5)])"
  by code_simp

text \<open>
  Claim C7, at a failing input.  With \<open>a = b = c = 1\<close> the rows \<^verbatim>\<open>(a, b)\<close> and \<^verbatim>\<open>(b, c)\<close>
  are both \<^verbatim>\<open>(1, 1)\<close>: the graph has the one vertex 1 with a loop, its component has a
  single member, and the function raises instead of putting 1 into a group.  The same
  happens with any row that pairs a value with itself, when the value has no other partner.
\<close>

theorem self_pair_raises:
  "find_edges_connections [[Some 1, Some 1], [Some 1, Some 1]] = Some (Inl TypeError)
   \<and> find_edges_connections [[Some 1, Some 2], [Some 2, Some 3], [Some 7, Some 7]]
       = Some (Inl TypeError)"
  by code_simp

subsection \<open>Effects on the caller's objects\<close>

lemma is_tuple_not_dict [simp]: "is_tuple ob \<Longrightarrow> \<not> is_dict ob"
  by (cases ob) auto

lemma is_tuple_sequence [simp]: "is_tuple ob \<Longrightarrow> is_sequence ob"
  by (cases ob) auto

lemma is_sequence_not_dict [simp]: "is_sequence ob \<Longrightarrow> \<not> is_dict ob"
  by (cases ob) auto

lemma frame_length: "frame h h' \<Longrightarrow> length h \<le> length h'"
  by (simp add: frame_def)

lemma frame_keep: "frame h h' \<Longrightarrow> p < length h \<Longrightarrow> \<not> is_dict (h ! p) \<Longrightarrow> h' ! p = h ! p"
  by (simp add: frame_def)

lemma frame_dict:
  "frame h h' \<Longrightarrow> p < length h \<Longrightarrow> is_dict (h ! p) \<Longrightarrow>
   is_dict (h' ! p) \<and> map fst (items (h' ! p)) = map fst (items (h ! p))"
  unfolding frame_def by (auto split: if_splits)

lemma map_of_items_is_dict: "map_of (items ob) k = Some v \<Longrightarrow> is_dict ob"
  by (cases ob) auto

lemma frame_entry:
  "frame h h' \<Longrightarrow> p < length h \<Longrightarrow> map_of (items (h ! p)) k = Some v \<Longrightarrow>
   \<exists>v'. map_of (items (h' ! p)) k = Some v' \<and> rebound h h' v v'"
  unfolding frame_def using map_of_items_is_dict [of "h ! p" k v] by (auto split: if_splits)

lemma frame_sequence:
  "frame h h' \<Longrightarrow> p < length h \<Longrightarrow> is_sequence (h' ! p) = is_sequence (h ! p)"
  using frame_keep [of h h' p] frame_dict [of h h' p]
  by (cases "is_dict (h ! p)") auto

lemma frameI:
  assumes "length h \<le> length h'"
    and "\<And>p. p < length h \<Longrightarrow> \<not> is_dict (h ! p) \<Longrightarrow> h' ! p = h ! p"
    and "\<And>p. p < length h \<Longrightarrow> is_dict (h ! p) \<Longrightarrow>
           is_dict (h' ! p) \<and> map fst (items (h' ! p)) = map fst (items (h ! p))"
    and "\<And>p k v. p < length h \<Longrightarrow> is_dict (h ! p) \<Longrightarrow> map_of (items (h ! p)) k = Some v \<Longrightarrow>
           \<exists>v'. map_of (items (h' ! p)) k = Some v' \<and> rebound h h' v v'"
  shows "frame h h'"
  unfolding frame_def using assms by simp

lemma frame_refl: "frame h h"
  by (rule frameI) (simp_all add: rebound_def)

lemma rebound_trans:
  assumes f12: "frame h1 h2" and f23: "frame h2 h3"
    and a: "rebound h1 h2 v v'" and b: "rebound h2 h3 v' v''"
  shows "rebound h1 h3 v v''"
proof -
  have l12: "length h1 \<le> length h2" and l23: "length h2 \<le> length h3"
    using f12 f23 by (simp_all add: frame_length)
  have one: "v'' = v \<or> (length h1 \<le> v'' \<and> v'' < length h3 \<and> is_tuple (h3 ! v''))"
  proof (cases "v'' = v'")
    case True
    show ?thesis
    proof (cases "v' = v")
      case True
      with \<open>v'' = v'\<close> show ?thesis by simp
    next
      case False
      then have n: "length h1 \<le> v'" "v' < length h2" "is_tuple (h2 ! v')"
        using a by (auto simp: rebound_def)
      then have "h3 ! v' = h2 ! v'"
        using frame_keep [OF f23, of v'] by simp
      then show ?thesis
        using n True l23 by simp
    qed
  next
    case False
    then have "length h2 \<le> v''" "v'' < length h3" "is_tuple (h3 ! v'')"
      using b by (auto simp: rebound_def)
    then show ?thesis
      using l12 by simp
  qed
  have two: "v'' = v" if "v < length h1" "\<not> is_sequence (h1 ! v)"
  proof -
    have "v' = v"
      using a that by (simp add: rebound_def)
    moreover have "\<not> is_sequence (h2 ! v)"
      using frame_sequence [OF f12, of v] that by simp
    ultimately show ?thesis
      using b that l12 by (simp add: rebound_def)
  qed
  show ?thesis
    unfolding rebound_def using one two by blast
qed

lemma frame_trans:
  assumes f12: "frame h1 h2" and f23: "frame h2 h3"
  shows "frame h1 h3"
proof (rule frameI)
  show "length h1 \<le> length h3"
    using f12 f23 by (meson frame_length order_trans)
next
  fix p assume p: "p < length h1" and nd: "\<not> is_dict (h1 ! p)"
  have "h2 ! p = h1 ! p"
    using frame_keep [OF f12 p nd] .
  moreover have "p < length h2"
    using p frame_length [OF f12] by simp
  ultimately show "h3 ! p = h1 ! p"
    using frame_keep [OF f23, of p] nd by simp
next
  fix p assume p: "p < length h1" and d: "is_dict (h1 ! p)"
  have p2: "p < length h2"
    using p frame_length [OF f12] by simp
  show "is_dict (h3 ! p) \<and> map fst (items (h3 ! p)) = map fst (items (h1 ! p))"
    using frame_dict [OF f12 p d] frame_dict [OF f23 p2] by simp
next
  fix p k v assume p: "p < length h1" and d: "is_dict (h1 ! p)"
    and kv: "map_of (items (h1 ! p)) k = Some v"
  have p2: "p < length h2"
    using p frame_length [OF f12] by simp
  obtain v' where v': "map_of (items (h2 ! p)) k = Some v'" "rebound h1 h2 v v'"
    using frame_entry [OF f12 p kv] by blast
  obtain v'' where v'': "map_of (items (h3 ! p)) k = Some v''" "rebound h2 h3 v' v''"
    using frame_entry [OF f23 p2 v'(1)] by blast
  show "\<exists>v'. map_of (items (h3 ! p)) k = Some v' \<and> rebound h1 h3 v v'"
    using v''(1) rebound_trans [OF f12 f23 v'(2) v''(2)] by blast
qed

lemma frame_alloc:
  assumes f: "frame h h1"
  shows "frame h (h1 @ [ob])"
proof (rule frameI)
  show "length h \<le> length (h1 @ [ob])"
    using frame_length [OF f] by simp
next
  fix p assume p: "p < length h" and nd: "\<not> is_dict (h ! p)"
  show "(h1 @ [ob]) ! p = h ! p"
    using frame_keep [OF f p nd] p frame_length [OF f] by (simp add: nth_append)
next
  fix p assume p: "p < length h" and d: "is_dict (h ! p)"
  show "is_dict ((h1 @ [ob]) ! p) \<and> map fst (items ((h1 @ [ob]) ! p)) = map fst (items (h ! p))"
    using frame_dict [OF f p d] p frame_length [OF f] by (simp add: nth_append)
next
  fix p k v assume p: "p < length h" and d: "is_dict (h ! p)"
    and kv: "map_of (items (h ! p)) k = Some v"
  obtain v' where v': "map_of (items (h1 ! p)) k = Some v'" "rebound h h1 v v'"
    using frame_entry [OF f p kv] by blast
  have "rebound h (h1 @ [ob]) v v'"
    using v'(2) by (auto simp: rebound_def nth_append)
  then show "\<exists>v'. map_of (items ((h1 @ [ob]) ! p)) k = Some v' \<and> rebound h (h1 @ [ob]) v v'"
    using v'(1) p frame_length [OF f] by (auto simp: nth_append)
qed

lemma map_fst_rebind:
  "map (fst \<circ> (\<lambda>kv. if fst kv = k then (k, t) else kv)) kas = map fst kas"
  by (induction kas) auto

lemma map_of_rebind_same:
  "map_of kas k = Some v \<Longrightarrow>
   map_of (map (\<lambda>kv. if fst kv = k then (k, t) else kv) kas) k = Some t"
  by (induction kas) (auto split: if_splits)

lemma map_of_rebind_other:
  "k' \<noteq> k \<Longrightarrow>
   map_of (map (\<lambda>kv. if fst kv = k then (k, t) else kv) kas) k' = map_of kas k'"
  by (induction kas) auto

lemma rebound_update:
  "rebound h h1 a b \<Longrightarrow> d < length h \<Longrightarrow> rebound h (h1[d := ob]) a b"
  by (auto simp: rebound_def)

lemma frame_dict_set:
  assumes f: "frame h h1" and d: "d < length h"
    and kv: "map_of (items (h ! d)) k = Some v"
    and seq: "is_sequence (h ! v)"
    and t: "length h \<le> t" "t < length h1" "is_tuple (h1 ! t)"
  shows "frame h (dict_set h1 d k t)"
proof (rule frameI)
  let ?g = "\<lambda>kv. if fst kv = k then (k, t) else kv"
  let ?h2 = "dict_set h1 d k t"
  have len: "length h \<le> length h1"
    using frame_length [OF f] .
  have dict: "is_dict (h ! d)"
    using kv by (rule map_of_items_is_dict)
  have h2d: "?h2 ! d = ODict (map ?g (items (h1 ! d)))"
    using d len by (simp add: dict_set_def)
  have h2p: "?h2 ! p = h1 ! p" if "p \<noteq> d" for p
    using that by (simp add: dict_set_def)
  show "length h \<le> length ?h2"
    using len by (simp add: dict_set_def)
  show "?h2 ! p = h ! p" if p: "p < length h" and nd: "\<not> is_dict (h ! p)" for p
  proof -
    have "p \<noteq> d"
      using nd dict by auto
    then show ?thesis
      using h2p frame_keep [OF f p nd] by simp
  qed
  show "is_dict (?h2 ! p) \<and> map fst (items (?h2 ! p)) = map fst (items (h ! p))"
    if p: "p < length h" and pd: "is_dict (h ! p)" for p
  proof (cases "p = d")
    case True
    then show ?thesis
      using h2d frame_dict [OF f p pd] by (simp add: map_fst_rebind)
  next
    case False
    then show ?thesis
      using h2p frame_dict [OF f p pd] by simp
  qed
  show "\<exists>v'. map_of (items (?h2 ! p)) k' = Some v' \<and> rebound h ?h2 v0 v'"
    if p: "p < length h" and pd: "is_dict (h ! p)" and kv0: "map_of (items (h ! p)) k' = Some v0"
    for p k' v0
  proof -
    obtain v1 where v1: "map_of (items (h1 ! p)) k' = Some v1" "rebound h h1 v0 v1"
      using frame_entry [OF f p kv0] by blast
    have r1: "rebound h ?h2 v0 v1"
      using rebound_update [OF v1(2) d] by (simp add: dict_set_def)
    show ?thesis
    proof (cases "p = d")
      case False
      then show ?thesis
        using h2p v1(1) r1 by simp
    next
      case True
      show ?thesis
      proof (cases "k' = k")
        case False
        then show ?thesis
          using \<open>p = d\<close> h2d v1(1) r1 by (simp add: map_of_rebind_other)
      next
        case k: True
        have v0: "v0 = v"
          using kv kv0 \<open>p = d\<close> k by simp
        have "t \<noteq> d"
          using t(1) d by simp
        then have "is_tuple (?h2 ! t)"
          using h2p t(3) by simp
        then have "rebound h ?h2 v t"
          using t seq by (simp add: rebound_def dict_set_def)
        moreover have "map_of (items (?h2 ! d)) k = Some t"
          using h2d v1(1) \<open>p = d\<close> k by (simp add: map_of_rebind_same)
        ultimately show ?thesis
          using \<open>p = d\<close> k v0 by blast
      qed
    qed
  qed
qed

lemma sort_frame:
  "sort_list_h n h d = Some (h', t) \<Longrightarrow>
     frame h h' \<and> length h \<le> t \<and> t < length h' \<and> is_tuple (h' ! t)"
  "sort_list_loop n h xs = Some (h', ys) \<Longrightarrow> frame h h'"
  "sort_dict_h n h d = Some h' \<Longrightarrow> frame h h'"
  "sort_dict_loop n h d ks = Some h' \<Longrightarrow> d < length h \<Longrightarrow> frame h h'"
proof (induction n h d and n h xs and n h d and n h d ks arbitrary: h' t and h' ys and h' and h'
    rule: sort_list_h_sort_list_loop_sort_dict_h_sort_dict_loop.induct)
  case (1 h d)
  then show ?case by simp
next
  case (2 n h d)
  from "2.prems" obtain d' h1 d'' where s: "sorted_addrs n h (elements (h ! d)) = Some d'"
    and l: "sort_list_loop n h d' = Some (h1, d'')"
    and r: "h' = h1 @ [OTuple d'']" "t = length h1" and nb: "\<not> length h \<le> d"
    by (auto split: if_splits option.splits)
  have f: "frame h h1"
    using "2.IH" nb s l by blast
  show ?case
    using frame_alloc [OF f] frame_length [OF f] r by simp
next
  case (3 n h)
  then show ?case by (simp add: frame_refl)
next
  case (4 n h x xs)
  then show ?case
    by (auto split: if_splits option.splits prod.splits intro: frame_trans)
next
  case (5 h d)
  then show ?case by simp
next
  case (6 n h d)
  then show ?case by (auto split: if_splits)
next
  case (7 n h d)
  then show ?case by (simp add: frame_refl)
next
  case (8 n h d k ks)
  from "8.prems" obtain v where v: "map_of (items (h ! d)) k = Some v" and nb: "\<not> length h \<le> v"
    by (auto split: option.splits if_splits)
  have d: "d < length h"
    using "8.prems" by simp
  show ?case
  proof (cases "is_sequence (h ! v)")
    case True
    with "8.prems" v nb obtain h1 t where s: "sort_list_h n h v = Some (h1, t)"
      and l: "sort_dict_loop n (dict_set h1 d k t) d ks = Some h'"
      by (auto split: option.splits)
    have f1: "frame h h1" and t: "length h \<le> t" "t < length h1" "is_tuple (h1 ! t)"
      using "8.IH"(1) v nb True s by blast+
    have f2: "frame h (dict_set h1 d k t)"
      using frame_dict_set [OF f1 d v True t] .
    have "d < length (dict_set h1 d k t)"
      using d frame_length [OF f2] by simp
    then have "frame (dict_set h1 d k t) h'"
      using "8.IH"(2) v nb True s l by blast
    then show ?thesis
      using f2 by (blast intro: frame_trans)
  next
    case False
    show ?thesis
    proof (cases "is_dict (h ! v)")
      case True
      with "8.prems" v nb False obtain h1 where s: "sort_dict_h n h v = Some h1"
        and l: "sort_dict_loop n h1 d ks = Some h'"
        by (auto split: option.splits)
      have f1: "frame h h1"
        using "8.IH"(3) v nb False True s by blast
      have "d < length h1"
        using d frame_length [OF f1] by simp
      then have "frame h1 h'"
        using "8.IH"(4) v nb False True s l by blast
      then show ?thesis
        using f1 by (blast intro: frame_trans)
    next
      case nd: False
      with "8.prems" v nb False have "sort_dict_loop n h d ks = Some h'"
        by simp
      then show ?thesis
        using "8.IH"(5) v nb False nd d by blast
    qed
  qed
qed

lemma sort_dict_loop_step:
  assumes run: "sort_dict_loop n h d (k # ks) = Some h'" and d: "d < length h"
  shows "\<exists>h2 v. map_of (items (h ! d)) k = Some v \<and> v < length h \<and> frame h h2
      \<and> sort_dict_loop n h2 d ks = Some h'
      \<and> (is_sequence (h ! v) \<longrightarrow>
           (\<exists>t. map_of (items (h2 ! d)) k = Some t \<and> length h \<le> t \<and> t < length h2
              \<and> is_tuple (h2 ! t)))"
proof -
  from run obtain v where v: "map_of (items (h ! d)) k = Some v" and nb: "\<not> length h \<le> v"
    by (auto split: option.splits if_splits)
  show ?thesis
  proof (cases "is_sequence (h ! v)")
    case True
    with run v nb obtain h1 t where s: "sort_list_h n h v = Some (h1, t)"
      and l: "sort_dict_loop n (dict_set h1 d k t) d ks = Some h'"
      by (auto split: option.splits)
    have f1: "frame h h1" and t: "length h \<le> t" "t < length h1" "is_tuple (h1 ! t)"
      using sort_frame(1) [OF s] by blast+
    have f2: "frame h (dict_set h1 d k t)"
      using frame_dict_set [OF f1 d v True t] .
    obtain v1 where v1: "map_of (items (h1 ! d)) k = Some v1"
      using frame_entry [OF f1 d v] by blast
    have "t \<noteq> d"
      using t(1) d by simp
    then have "is_tuple (dict_set h1 d k t ! t)"
      using t(3) by (simp add: dict_set_def)
    moreover have "map_of (items (dict_set h1 d k t ! d)) k = Some t"
      using v1 d frame_length [OF f1] by (simp add: dict_set_def map_of_rebind_same)
    moreover have "length (dict_set h1 d k t) = length h1"
      by (simp add: dict_set_def)
    ultimately show ?thesis
      using v nb f2 l t by auto
  next
    case False
    show ?thesis
    proof (cases "is_dict (h ! v)")
      case True
      with run v nb False obtain h1 where s: "sort_dict_h n h v = Some h1"
        and l: "sort_dict_loop n h1 d ks = Some h'"
        by (auto split: option.splits)
      have "frame h h1"
        using sort_frame(3) [OF s] .
      then show ?thesis
        using v nb l False by auto
    next
      case nd: False
      with run v nb False have "sort_dict_loop n h d ks = Some h'"
        by simp
      then show ?thesis
        using v nb False frame_refl [of h] by auto
    qed
  qed
qed

lemma sort_dict_loop_rebinds:
  "sort_dict_loop n h d ks = Some h' \<Longrightarrow> d < length h \<Longrightarrow> k \<in> set ks \<Longrightarrow>
   map_of (items (h ! d)) k = Some v \<Longrightarrow> v < length h \<Longrightarrow> is_sequence (h ! v) \<Longrightarrow>
   \<exists>v'. map_of (items (h' ! d)) k = Some v' \<and> length h \<le> v' \<and> v' < length h' \<and> is_tuple (h' ! v')"
proof (induction ks arbitrary: h v)
  case Nil
  then show ?case by simp
next
  case (Cons k0 ks)
  obtain h2 v0 where v0: "map_of (items (h ! d)) k0 = Some v0"
    and f: "frame h h2" and l: "sort_dict_loop n h2 d ks = Some h'"
    and new: "is_sequence (h ! v0) \<longrightarrow>
           (\<exists>t. map_of (items (h2 ! d)) k0 = Some t \<and> length h \<le> t \<and> t < length h2
              \<and> is_tuple (h2 ! t))"
    using sort_dict_loop_step [OF Cons.prems(1,2)] by blast
  have d2: "d < length h2"
    using Cons.prems(2) frame_length [OF f] by simp
  have f2: "frame h2 h'"
    using sort_frame(4) [OF l d2] .
  have len: "length h \<le> length h2" "length h2 \<le> length h'"
    using frame_length [OF f] frame_length [OF f2] by simp_all
  show ?case
  proof (cases "k0 = k")
    case True
    then have "v0 = v"
      using v0 Cons.prems(4) by simp
    then obtain t where t: "map_of (items (h2 ! d)) k = Some t" "length h \<le> t" "t < length h2"
        "is_tuple (h2 ! t)"
      using new Cons.prems(6) True by blast
    obtain v' where v': "map_of (items (h' ! d)) k = Some v'" "rebound h2 h' t v'"
      using frame_entry [OF f2 d2 t(1)] by blast
    show ?thesis
    proof (cases "v' = t")
      case True
      have "h' ! t = h2 ! t"
        using frame_keep [OF f2 t(3)] t(4) by simp
      then show ?thesis
        using v'(1) True t len by auto
    next
      case False
      then have "length h2 \<le> v'" "v' < length h'" "is_tuple (h' ! v')"
        using v'(2) by (auto simp: rebound_def)
      then show ?thesis
        using v'(1) len by auto
    qed
  next
    case False
    then have k: "k \<in> set ks"
      using Cons.prems(3) by simp
    obtain v2 where v2: "map_of (items (h2 ! d)) k = Some v2" "rebound h h2 v v2"
      using frame_entry [OF f Cons.prems(2,4)] by blast
    have "v2 < length h2 \<and> is_sequence (h2 ! v2)"
    proof (cases "v2 = v")
      case True
      then show ?thesis
        using frame_sequence [OF f Cons.prems(5)] Cons.prems(5,6) len by simp
    next
      case False
      then show ?thesis
        using v2(2) by (auto simp: rebound_def)
    qed
    then obtain v' where "map_of (items (h' ! d)) k = Some v'" "length h2 \<le> v'"
        "v' < length h'" "is_tuple (h' ! v')"
      using Cons.IH [OF l d2 k v2(1)] by blast
    then show ?thesis
      using len by auto
  qed
qed

text \<open>
  Claim C3.  \<^verbatim>\<open>data_standardization\<close> is not free of side effects.  Called on the dict
  \<^verbatim>\<open>{'list': [3, 2, 1]}\<close> (address 4 of the store below), it returns the canonical string
  and leaves the caller's dict as \<^verbatim>\<open>{'list': (1, 2, 3)}\<close>: the entry is rebound to a new,
  sorted tuple.  Only \<^verbatim>\<open>convert_data_to_id\<close> passes a deep copy.
\<close>

theorem data_standardization_mutates_input:
  \<open>data_standardization_h 5
     [OLeaf (PInt 3), OLeaf (PInt 2), OLeaf (PInt 1), OList [0, 1, 2], ODict [(''list'', 3)]] 4
   = Some ([OLeaf (PInt 3), OLeaf (PInt 2), OLeaf (PInt 1), OList [0, 1, 2],
            ODict [(''list'', 5)], OTuple [2, 1, 0]],
           PStr ''{"list": [1, 2, 3]}'')
   \<and> deref 5
       [OLeaf (PInt 3), OLeaf (PInt 2), OLeaf (PInt 1), OList [0, 1, 2], ODict [(''list'', 3)]] 4
     = Some (PDict [(''list'', PList [PInt 3, PInt 2, PInt 1])])
   \<and> deref 5
       [OLeaf (PInt 3), OLeaf (PInt 2), OLeaf (PInt 1), OList [0, 1, 2],
        ODict [(''list'', 5)], OTuple [2, 1, 0]] 4
     = Some (PDict [(''list'', PTuple [PInt 1, PInt 2, PInt 3])])
   \<and> data_standardization (PDict [(''list'', PList [PInt 3, PInt 2, PInt 1])])
     = PStr ''{"list": [1, 2, 3]}''\<close>
  by code_simp


text \<open>
  Claim C3, amended.  A call of \<^verbatim>\<open>data_standardization\<close> that returns changes the
  caller's objects in one way only: it rebinds entries of dicts.  Every object that is not
  a dict is as it was (no list or tuple is reordered or converted in place), and every dict
  is a dict with the same keys in the same order.  An entry of any dict is afterwards bound
  to the object it was bound to or to a tuple built by the call, and it is still bound to
  the same object if that was a leaf or a dict.  When the input is a dict, each of its
  entries that was bound to a list or a tuple is bound to a tuple built by the call, and
  the string returned renders the dict in that state.  When the input is not a list, a
  tuple or a dict, the store is unchanged.
\<close>

theorem data_standardization_frame:
  assumes "data_standardization_h n h data = Some (h', r)"
  shows "length h \<le> length h'
    \<and> (\<forall>p<length h. \<not> is_dict (h ! p) \<longrightarrow> h' ! p = h ! p)
    \<and> (\<forall>p<length h. is_dict (h ! p) \<longrightarrow>
          is_dict (h' ! p) \<and> map fst (items (h' ! p)) = map fst (items (h ! p)))
    \<and> (\<forall>p<length h. \<forall>k v. map_of (items (h ! p)) k = Some v \<longrightarrow>
          (\<exists>v'. map_of (items (h' ! p)) k = Some v'
             \<and> (v' = v \<or> (length h \<le> v' \<and> v' < length h' \<and> is_tuple (h' ! v')))
             \<and> (v < length h \<and> \<not> is_sequence (h ! v) \<longrightarrow> v' = v)))
    \<and> (is_dict (h ! data) \<longrightarrow>
          (\<forall>k v. map_of (items (h ! data)) k = Some v \<and> v < length h \<and> is_sequence (h ! v) \<longrightarrow>
             (\<exists>v'. map_of (items (h' ! data)) k = Some v'
                \<and> length h \<le> v' \<and> v' < length h' \<and> is_tuple (h' ! v'))))
    \<and> (is_dict (h ! data) \<longrightarrow> (\<exists>v. deref n h' data = Some v \<and> r = PStr (json_dumps v)))
    \<and> (\<not> is_sequence (h ! data) \<and> \<not> is_dict (h ! data) \<longrightarrow> h' = h)"
proof -
  have d: "data < length h"
    using assms by (auto simp: data_standardization_h_def split: if_splits)
  have f: "frame h h'"
    using assms sort_frame(1,3) [of n h data]
    by (auto simp: data_standardization_h_def frame_refl split: if_splits option.splits)
  have leaf: "\<not> is_sequence (h ! data) \<and> \<not> is_dict (h ! data) \<longrightarrow> h' = h"
    using assms by (auto simp: data_standardization_h_def split: if_splits)
  have ret: "\<exists>v. deref n h' data = Some v \<and> r = PStr (json_dumps v)" if "is_dict (h ! data)"
    using assms that by (auto simp: data_standardization_h_def split: if_splits option.splits)
  have new: "\<exists>v'. map_of (items (h' ! data)) k = Some v'
                \<and> length h \<le> v' \<and> v' < length h' \<and> is_tuple (h' ! v')"
    if dict: "is_dict (h ! data)" and kv: "map_of (items (h ! data)) k = Some v"
      and v: "v < length h" "is_sequence (h ! v)" for k v
  proof -
    have s: "sort_dict_h n h data = Some h'"
      using assms dict by (auto simp: data_standardization_h_def split: if_splits option.splits)
    then obtain m where "n = Suc m"
      by (cases n) simp_all
    then have l: "sort_dict_loop m h data (map fst (items (h ! data))) = Some h'"
      using s d by simp
    have "k \<in> set (map fst (items (h ! data)))"
      using map_of_SomeD [OF kv] by force
    then show ?thesis
      using sort_dict_loop_rebinds [OF l d _ kv v] by blast
  qed
  have ent: "\<exists>v'. map_of (items (h' ! p)) k = Some v'
             \<and> (v' = v \<or> (length h \<le> v' \<and> v' < length h' \<and> is_tuple (h' ! v')))
             \<and> (v < length h \<and> \<not> is_sequence (h ! v) \<longrightarrow> v' = v)"
    if "p < length h" "map_of (items (h ! p)) k = Some v" for p k v
    using frame_entry [OF f that] unfolding rebound_def by blast
  show ?thesis
    using frame_length [OF f] frame_keep [OF f] frame_dict [OF f] ent new ret leaf
    by blast
qed

theorem data_standardization_frame_witness:
  "(case data_standardization_h 5
      [OLeaf (PInt 3), OLeaf (PInt 2), OLeaf (PInt 1), OList [0, 1, 2], OLeaf (PInt 7),
       ODict [], ODict [(''list'', 3), (''n'', 4), (''d'', 5)]] 6 of
      None \<Rightarrow> False
    | Some hr \<Rightarrow>
        fst hr ! 3 = OList [0, 1, 2]
        \<and> map fst (items (fst hr ! 6)) = [''list'', ''n'', ''d'']
        \<and> map_of (items (fst hr ! 6)) ''n'' = Some 4
        \<and> map_of (items (fst hr ! 6)) ''d'' = Some 5
        \<and> (\<exists>v'. map_of (items (fst hr ! 6)) ''list'' = Some v' \<and> 7 \<le> v' \<and> is_tuple (fst hr ! v')))
   \<and> data_standardization_h 2 [OLeaf (PInt 7)] 0 = Some ([OLeaf (PInt 7)], PInt 7)"
proof -
  let ?h = "[OLeaf (PInt 3), OLeaf (PInt 2), OLeaf (PInt 1), OList [0, 1, 2], OLeaf (PInt 7),
       ODict [], ODict [(''list'', 3), (''n'', 4), (''d'', 5)]]"
  let ?h' = "[OLeaf (PInt 3), OLeaf (PInt 2), OLeaf (PInt 1), OList [0, 1, 2], OLeaf (PInt 7),
       ODict [], ODict [(''list'', 7), (''n'', 4), (''d'', 5)], OTuple [2, 1, 0]]"
  have e: \<open>data_standardization_h 5 ?h 6
      = Some (?h', PStr ''{"d": {}, "list": [1, 2, 3], "n": 7}'')\<close>
    by code_simp
  have l: "data_standardization_h 2 [OLeaf (PInt 7)] 0 = Some ([OLeaf (PInt 7)], PInt 7)"
    by code_simp
  note t = data_standardization_frame [OF e]
  have a: "?h' ! 3 = OList [0, 1, 2]"
    using t by simp
  have b: "map fst (items (?h' ! 6)) = [''list'', ''n'', ''d'']"
    using t by simp
  have c: "map_of (items (?h' ! 6)) ''n'' = Some 4" "map_of (items (?h' ! 6)) ''d'' = Some 5"
    using t by simp_all
  have d: "\<exists>v'. map_of (items (?h' ! 6)) ''list'' = Some v' \<and> 7 \<le> v' \<and> is_tuple (?h' ! v')"
    using t by simp
  have "[OLeaf (PInt 7)] = [OLeaf (PInt 7)]"
    using data_standardization_frame [OF l] by simp
  then show ?thesis
    using a b c d e l by simp
qed

end
